theory Spec2Isabelle
  imports Main "HOL-Library.AList"
begin

section \<open>Data model\<close>

text \<open>
  The chat server keeps its durable state in three MongoDB collections (users, messages,
  channels) and its live state in one in-process \<open>Map\<close>, \<open>activeConnections\<close>, from
  socket identifier to user identifier. Collections are lists in insertion order (the
  order in which \<open>findOne\<close> meets the documents), an ObjectId is a natural number drawn
  from a counter, a date is a natural number, and a JavaScript \<open>Map\<close> is an association
  list with distinct keys in insertion order.

  An optional string field that a client omits is the empty string here: every test the
  handlers and the schema make on such a field (\<open>||\<close>, \<open>if\<close>, \<open>required\<close>) treats
  \<open>undefined\<close> and \<open>''\<close> alike. A character is a UTF-16 code unit below 256, and the
  length of a string is its number of code units, as in JavaScript.
\<close>

type_synonym object_id = nat
type_synonym socket_id = string
type_synonym date = nat

text \<open>
  Modelled from the spec: the User schema (models/User.js) is not among the sources. The
  fields are the ones the handlers read and write, with the meaning section 3 of the
  specification gives them.
\<close>

record user =
  u_id :: object_id
  username :: string
  walletAddress :: string
  avatar :: "string option"
  role :: string
  isOnline :: bool
  socketId :: "socket_id option"
  lastSeen :: date
  joinedAt :: date

text \<open>messageSchema.\<close>

record message =
  msg_id :: object_id
  msg_username :: string
  msg_text :: string
  msg_channel :: string
  msg_avatar :: "string option"
  msg_isBroadcast :: bool
  msg_userId :: object_id
  msg_timestamp :: date

text \<open>channelSchema.\<close>

record channel =
  chan_id :: object_id
  chan_name :: string
  description :: string
  isActive :: bool
  messageCount :: int
  lastMessageAt :: "date option"
  createdBy :: object_id

record state =
  users :: "user list"
  messages :: "message list"
  channel_docs :: "channel list"
  activeConnections :: "(socket_id \<times> object_id) list"
  nextId :: object_id

text \<open>Payloads of the events a client sends.\<close>

record user_data =
  ud_username :: string
  ud_walletAddress :: string
  ud_avatar :: string
  ud_role :: string

record message_data =
  md_text :: string
  md_channel :: string

text \<open>Payloads of the events the server emits, and the three ways it emits them.\<close>

datatype payload =
    ErrorMsg string
  | UserJoined string "string option" bool
  | UserLeft string "string option"
  | NewMessage object_id string string date "string option" string bool
  | UserTyping object_id bool

datatype emission =
    SocketEmit socket_id string payload
  | SocketBroadcast socket_id string payload
  | IoEmit string payload

text \<open>
  \<open>SocketEmit sid\<close> is \<open>socket.emit\<close>: to the originating connection only.
  \<open>SocketBroadcast sid\<close> is \<open>socket.broadcast.emit\<close>: to every connection but the
  originating one. \<open>IoEmit\<close> is \<open>io.emit\<close>: to every connection.

  Every call of the store can throw. A handler takes a fault plan: \<open>flt n\<close> says that
  the store call at site \<open>n\<close> of the handler throws. The sites are numbered in each
  handler in the order of its \<open>await\<close>s. Each handler runs to its end before the next
  event is handled.
\<close>

type_synonym faults = "nat \<Rightarrow> bool"

definition no_faults :: faults where
  "no_faults = (\<lambda>n. False)"

section \<open>Schema setters and validators\<close>

text \<open>
  The code units below 256 that \<open>String.prototype.trim\<close>, which the \<open>trim\<close> setter of a
  schema calls, strips: tab, line feed, vertical tab, form feed, carriage return, space
  and the no-break space U+00A0.
\<close>

definition is_ws :: "char \<Rightarrow> bool" where
  "is_ws c =
     (c \<in> set [CHR 0x09, CHR 0x0A, CHR 0x0B, CHR 0x0C, CHR 0x0D, CHR 0x20, CHR 0xA0])"

definition trim :: "string \<Rightarrow> string" where
  "trim s = rev (dropWhile is_ws (rev (dropWhile is_ws s)))"

definition channels :: "string list" where
  "channels = [''general'', ''trading'', ''nft'', ''defi'', ''announcements'']"

definition message_channel_enum :: "string list" where
  "message_channel_enum = [''general'', ''trading'', ''nft'', ''defi'', ''announcements'']"

text \<open>
  \<open>new Message({...})\<close>: the document gets a fresh identifier, the \<open>trim\<close> setters of
  \<open>username\<close> and \<open>text\<close> run, and \<open>timestamp\<close> defaults to the current time.
\<close>

definition new_Message ::
  "object_id \<Rightarrow> date \<Rightarrow> string \<Rightarrow> string \<Rightarrow> string \<Rightarrow> string option \<Rightarrow> object_id \<Rightarrow> bool
    \<Rightarrow> message" where
  "new_Message i now un txt ch av uid bc =
     \<lparr>msg_id = i, msg_username = trim un, msg_text = trim txt, msg_channel = ch,
      msg_avatar = av, msg_isBroadcast = bc, msg_userId = uid, msg_timestamp = now\<rparr>"

text \<open>
  The validators \<open>message.save()\<close> runs: \<open>username\<close>, \<open>text\<close> and \<open>channel\<close> are
  required, \<open>text\<close> has at most 1000 characters, \<open>channel\<close> is one of the enum.
\<close>

definition valid_message :: "message \<Rightarrow> bool" where
  "valid_message m =
     (msg_username m \<noteq> [] \<and> msg_text m \<noteq> [] \<and> length (msg_text m) \<le> 1000 \<and>
      msg_channel m \<in> set message_channel_enum)"

definition message_payload :: "message \<Rightarrow> payload" where
  "message_payload m =
     NewMessage (msg_id m) (msg_username m) (msg_text m) (msg_timestamp m) (msg_avatar m)
       (msg_channel m) (msg_isBroadcast m)"

section \<open>Store operations\<close>

definition findById_user :: "object_id \<Rightarrow> user list \<Rightarrow> user option" where
  "findById_user i us = find (\<lambda>u. u_id u = i) us"

text \<open>\<open>user.save()\<close> on a document that came from the store: written back under its identifier.\<close>

fun save_user :: "user \<Rightarrow> user list \<Rightarrow> user list" where
  "save_user u [] = []"
| "save_user u (v # vs) = (if u_id v = u_id u then u # vs else v # save_user u vs)"

text \<open>
  \<open>Channel.findOneAndUpdate({name: c}, {lastMessageAt: ts, $inc: {messageCount: 1}})\<close>:
  the first channel of that name, if there is one, gets the timestamp and one more message.
  The names it is called with are lower-case and have no surrounding blanks, so the
  setters of \<open>name\<close> leave the filter as it is.
\<close>

fun findOneAndUpdate_inc :: "string \<Rightarrow> date \<Rightarrow> channel list \<Rightarrow> channel list" where
  "findOneAndUpdate_inc c ts [] = []"
| "findOneAndUpdate_inc c ts (ch # chs) =
     (if chan_name ch = c
      then ch\<lparr>lastMessageAt := Some ts, messageCount := messageCount ch + 1\<rparr> # chs
      else ch # findOneAndUpdate_inc c ts chs)"

text \<open>\<open>Channel.findOne({name: n})\<close> and \<open>Channel.findById(i)\<close>.\<close>

definition findOne_channel :: "string \<Rightarrow> channel list \<Rightarrow> channel option" where
  "findOne_channel n chs = find (\<lambda>c. chan_name c = n) chs"

definition findById_channel :: "object_id \<Rightarrow> channel list \<Rightarrow> channel option" where
  "findById_channel i chs = find (\<lambda>c. chan_id c = i) chs"

section \<open>Message handlers\<close>

definition user_not_found :: "socket_id \<Rightarrow> emission" where
  "user_not_found sid =
     SocketEmit sid ''messageError'' (ErrorMsg ''User not found. Please reconnect.'')"

definition send_failed :: "socket_id \<Rightarrow> emission" where
  "send_failed sid =
     SocketEmit sid ''messageError'' (ErrorMsg ''Server error processing message'')"

text \<open>\<open>messageData.channel || 'general'\<close>.\<close>

definition channel_or_general :: "string \<Rightarrow> string" where
  "channel_or_general c = (if c = [] then ''general'' else c)"

text \<open>
  \<open>socket.on('sendMessage')\<close> of the first server variant (lines 139 to 188). Store call
  sites: 0 \<open>User.findById\<close>, 1 \<open>message.save\<close>, 2 \<open>Channel.findOneAndUpdate\<close>.
  \<open>messageData = None\<close> is a payload of \<open>null\<close>: reading \<open>messageData.text\<close> throws.
\<close>

definition sendMessage_v1 ::
  "faults \<Rightarrow> date \<Rightarrow> socket_id \<Rightarrow> message_data option \<Rightarrow> state \<Rightarrow> state \<times> emission list" where
  "sendMessage_v1 flt now sid messageData st =
     (case map_of (activeConnections st) sid of
        None \<Rightarrow> (st, [user_not_found sid])
      | Some userId \<Rightarrow>
          if flt 0 then (st, [send_failed sid])
          else
            (case findById_user userId (users st) of
               None \<Rightarrow> (st, [user_not_found sid])
             | Some user \<Rightarrow>
                 if \<not> isOnline user then (st, [user_not_found sid])
                 else
                   (case messageData of
                      None \<Rightarrow> (st, [send_failed sid])
                    | Some md \<Rightarrow>
                        let message = new_Message (nextId st) now (username user) (md_text md)
                              (channel_or_general (md_channel md)) (avatar user) (u_id user) False;
                            st1 = st\<lparr>nextId := Suc (nextId st)\<rparr>
                        in
                          if flt 1 \<or> \<not> valid_message message then (st1, [send_failed sid])
                          else
                            let st2 = st1\<lparr>messages := messages st1 @ [message]\<rparr> in
                              if flt 2 then (st2, [send_failed sid])
                              else
                                (st2\<lparr>channel_docs :=
                                       findOneAndUpdate_inc (msg_channel message)
                                         (msg_timestamp message) (channel_docs st2)\<rparr>,
                                 [IoEmit ''newMessage'' (message_payload message)]))))"

text \<open>\<open>socket.on('sendMessage')\<close> of the second server variant (lines 550 to 599), same sites.\<close>

definition sendMessage ::
  "faults \<Rightarrow> date \<Rightarrow> socket_id \<Rightarrow> message_data option \<Rightarrow> state \<Rightarrow> state \<times> emission list" where
  "sendMessage flt now sid messageData st =
     (case map_of (activeConnections st) sid of
        None \<Rightarrow> (st, [user_not_found sid])
      | Some userId \<Rightarrow>
          if flt 0 then (st, [send_failed sid])
          else
            (case findById_user userId (users st) of
               None \<Rightarrow> (st, [user_not_found sid])
             | Some user \<Rightarrow>
                 if \<not> isOnline user then (st, [user_not_found sid])
                 else
                   (case messageData of
                      None \<Rightarrow> (st, [send_failed sid])
                    | Some md \<Rightarrow>
                        let message = new_Message (nextId st) now (username user) (md_text md)
                              (channel_or_general (md_channel md)) (avatar user) (u_id user) False;
                            st1 = st\<lparr>nextId := Suc (nextId st)\<rparr>
                        in
                          if flt 1 \<or> \<not> valid_message message then (st1, [send_failed sid])
                          else
                            let st2 = st1\<lparr>messages := messages st1 @ [message]\<rparr> in
                              if flt 2 then (st2, [send_failed sid])
                              else
                                (st2\<lparr>channel_docs :=
                                       findOneAndUpdate_inc (msg_channel message)
                                         (msg_timestamp message) (channel_docs st2)\<rparr>,
                                 [IoEmit ''newMessage'' (message_payload message)]))))"

definition broadcast_failed :: "socket_id \<Rightarrow> emission" where
  "broadcast_failed sid =
     SocketEmit sid ''messageError'' (ErrorMsg ''Server error processing broadcast message'')"

text \<open>
  The loop of \<open>socket.on('broadcastMessage')\<close> over the channel names that are left,
  \<open>k\<close> the position of the first of them in \<open>channels\<close>. Store call sites of the
  \<open>k\<close>-th round: \<open>2 * k + 1\<close> \<open>message.save\<close>, \<open>2 * k + 2\<close>
  \<open>Channel.findOneAndUpdate\<close>. Each round reads the clock anew, when \<open>new Message\<close>
  takes the default of \<open>timestamp\<close>: \<open>clock k\<close> is the reading of round \<open>k\<close>. The result
  is the store and \<open>Some\<close> of the collected \<open>broadcastMessages\<close>, or \<open>None\<close> when a round
  threw.
\<close>

fun broadcast_loop ::
  "faults \<Rightarrow> (nat \<Rightarrow> date) \<Rightarrow> user \<Rightarrow> string \<Rightarrow> nat \<Rightarrow> string list \<Rightarrow> state
    \<Rightarrow> payload list \<Rightarrow> state \<times> payload list option" where
  "broadcast_loop flt clock user txt k [] st broadcastMessages = (st, Some broadcastMessages)"
| "broadcast_loop flt clock user txt k (channelName # rest) st broadcastMessages =
     (let message = new_Message (nextId st) (clock k) (username user) txt channelName
            (avatar user) (u_id user) True;
          st1 = st\<lparr>nextId := Suc (nextId st)\<rparr>
      in
        if flt (2 * k + 1) \<or> \<not> valid_message message then (st1, None)
        else
          let st2 = st1\<lparr>messages := messages st1 @ [message]\<rparr> in
            if flt (2 * k + 2) then (st2, None)
            else
              broadcast_loop flt clock user txt (Suc k) rest
                (st2\<lparr>channel_docs :=
                       findOneAndUpdate_inc channelName (msg_timestamp message) (channel_docs st2)\<rparr>)
                (broadcastMessages @ [message_payload message]))"

text \<open>
  \<open>socket.on('broadcastMessage')\<close> (lines 602 to 660). Store call site 0 is
  \<open>User.findById\<close>; the loop has the others. A payload of \<open>null\<close> throws in the first
  round, before anything is written.
\<close>

definition broadcastMessage ::
  "faults \<Rightarrow> (nat \<Rightarrow> date) \<Rightarrow> socket_id \<Rightarrow> message_data option \<Rightarrow> state
    \<Rightarrow> state \<times> emission list" where
  "broadcastMessage flt clock sid messageData st =
     (case map_of (activeConnections st) sid of
        None \<Rightarrow> (st, [user_not_found sid])
      | Some userId \<Rightarrow>
          if flt 0 then (st, [broadcast_failed sid])
          else
            (case findById_user userId (users st) of
               None \<Rightarrow> (st, [user_not_found sid])
             | Some user \<Rightarrow>
                 if \<not> isOnline user then (st, [user_not_found sid])
                 else
                   (case messageData of
                      None \<Rightarrow> (st, [broadcast_failed sid])
                    | Some md \<Rightarrow>
                        (case broadcast_loop flt clock user (md_text md) 0 channels st [] of
                           (st', None) \<Rightarrow> (st', [broadcast_failed sid])
                         | (st', Some broadcastMessages) \<Rightarrow>
                             (st', map (IoEmit ''newMessage'') broadcastMessages)))))"

section \<open>Presence handlers\<close>

text \<open>
  \<open>socket.on('typing')\<close> (lines 663 to 671). The handler has no \<open>try\<close>: with a bound
  connection and a payload of \<open>null\<close>, reading \<open>data.isTyping\<close> throws out of the
  handler, which is the result \<open>None\<close>.
\<close>

definition typing :: "socket_id \<Rightarrow> bool option \<Rightarrow> state \<Rightarrow> (state \<times> emission list) option" where
  "typing sid data st =
     (case map_of (activeConnections st) sid of
        None \<Rightarrow> Some (st, [])
      | Some userId \<Rightarrow>
          (case data of
             None \<Rightarrow> None
           | Some isTyping \<Rightarrow>
               Some (st, [SocketBroadcast sid ''userTyping'' (UserTyping userId isTyping)])))"

text \<open>
  Modelled from the spec: saving a new user fails when the store already has a user of
  that username or of that wallet address (section 3: unique username, unique wallet
  address); the indexes are declared in models/User.js, which is not among the sources.
\<close>

definition insert_user :: "user \<Rightarrow> user list \<Rightarrow> user list option" where
  "insert_user u us =
     (if \<exists>v \<in> set us. username v = username u \<or> walletAddress v = walletAddress u
      then None else Some (us @ [u]))"

definition join_failed :: "socket_id \<Rightarrow> emission" where
  "join_failed sid = SocketEmit sid ''joinError'' (ErrorMsg ''Failed to join. Please try again.'')"

text \<open>
  \<open>User.findOne({$or: [{username}, {walletAddress}]})\<close>: the first user that has the
  username or the wallet address.
\<close>

definition findOne_user_or :: "string \<Rightarrow> string \<Rightarrow> user list \<Rightarrow> user option" where
  "findOne_user_or un w us = find (\<lambda>u. username u = un \<or> walletAddress u = w) us"

text \<open>
  The update branch of join: what the handler assigns to the user it found, before
  \<open>user.save()\<close>.
\<close>

definition join_update :: "date \<Rightarrow> socket_id \<Rightarrow> user_data \<Rightarrow> user \<Rightarrow> user" where
  "join_update now sid userData user =
     (let user1 = user\<lparr>isOnline := True, socketId := Some sid, lastSeen := now\<rparr>;
          user2 = (if ud_avatar userData \<noteq> [] then user1\<lparr>avatar := Some (ud_avatar userData)\<rparr>
                   else user1)
      in if ud_role userData \<noteq> [] then user2\<lparr>role := ud_role userData\<rparr> else user2)"

text \<open>The create branch of join: \<open>new User({...})\<close>.\<close>

definition join_create :: "object_id \<Rightarrow> date \<Rightarrow> socket_id \<Rightarrow> user_data \<Rightarrow> user" where
  "join_create i now sid userData =
     \<lparr>u_id = i, username = ud_username userData, walletAddress = ud_walletAddress userData,
      avatar = (if ud_avatar userData \<noteq> [] then Some (ud_avatar userData) else None),
      role = (if ud_role userData \<noteq> [] then ud_role userData else ''user''),
      isOnline = True, socketId = Some sid, lastSeen = now, joinedAt = now\<rparr>"

definition user_joined :: "socket_id \<Rightarrow> user \<Rightarrow> emission" where
  "user_joined sid user =
     SocketBroadcast sid ''userJoined'' (UserJoined (username user) (avatar user) True)"

definition user_left :: "socket_id \<Rightarrow> user \<Rightarrow> emission" where
  "user_left sid user = SocketBroadcast sid ''userLeft'' (UserLeft (username user) (avatar user))"

text \<open>
  \<open>socket.on('join')\<close> of the second server variant (lines 474 to 547). \<open>userData = None\<close>
  is the payload \<open>null\<close>, the explicit leave. Store call sites: 0 \<open>User.findOne\<close> (join)
  or \<open>User.findById\<close> (leave), 1 \<open>user.save\<close>. A throw at site 1 also stands for a
  validator of the User schema that rejects the document.
\<close>

definition join ::
  "faults \<Rightarrow> date \<Rightarrow> socket_id \<Rightarrow> user_data option \<Rightarrow> state \<Rightarrow> state \<times> emission list" where
  "join flt now sid userData st =
     (case userData of
        Some d \<Rightarrow>
          if ud_username d \<noteq> [] \<and> ud_walletAddress d \<noteq> [] then
            if flt 0 then (st, [join_failed sid])
            else
              (case findOne_user_or (ud_username d) (ud_walletAddress d) (users st) of
                 None \<Rightarrow>
                   let user = join_create (nextId st) now sid d;
                       st1 = st\<lparr>nextId := Suc (nextId st)\<rparr>
                   in
                     if flt 1 then (st1, [join_failed sid])
                     else
                       (case insert_user user (users st1) of
                          None \<Rightarrow> (st1, [join_failed sid])
                        | Some us \<Rightarrow>
                            (st1\<lparr>users := us,
                                 activeConnections :=
                                   AList.update sid (u_id user) (activeConnections st1)\<rparr>,
                             [user_joined sid user]))
               | Some found \<Rightarrow>
                   let user = join_update now sid d found in
                     if flt 1 then (st, [join_failed sid])
                     else
                       (st\<lparr>users := save_user user (users st),
                           activeConnections :=
                             AList.update sid (u_id user) (activeConnections st)\<rparr>,
                        [user_joined sid user]))
          else (st, [])
      | None \<Rightarrow>
          (case map_of (activeConnections st) sid of
             None \<Rightarrow> (st, [])
           | Some userId \<Rightarrow>
               if flt 0 then (st, [join_failed sid])
               else
                 (case findById_user userId (users st) of
                    None \<Rightarrow> (st, [])
                  | Some found \<Rightarrow>
                      let user = found\<lparr>isOnline := False, socketId := None\<rparr> in
                        if flt 1 then (st, [join_failed sid])
                        else
                          (st\<lparr>users := save_user user (users st),
                              activeConnections := AList.delete sid (activeConnections st)\<rparr>,
                           [user_left sid user]))))"

text \<open>
  \<open>socket.on('disconnect')\<close> (lines 674 to 699). Store call sites: 0 \<open>User.findById\<close>,
  1 \<open>user.save\<close>. A throw is logged and nothing is emitted.
\<close>

definition disconnect :: "faults \<Rightarrow> socket_id \<Rightarrow> state \<Rightarrow> state \<times> emission list" where
  "disconnect flt sid st =
     (case map_of (activeConnections st) sid of
        None \<Rightarrow> (st, [])
      | Some userId \<Rightarrow>
          if flt 0 then (st, [])
          else
            (case findById_user userId (users st) of
               None \<Rightarrow> (st\<lparr>activeConnections := AList.delete sid (activeConnections st)\<rparr>, [])
             | Some found \<Rightarrow>
                 let user = found\<lparr>isOnline := False, socketId := None\<rparr> in
                   if flt 1 then (st, [])
                   else
                     (st\<lparr>users := save_user user (users st),
                         activeConnections := AList.delete sid (activeConnections st)\<rparr>,
                      [user_left sid user])))"

section \<open>Channel administration\<close>

datatype response =
    ErrorResponse nat string
  | ChannelDeleted string nat

text \<open>
  \<open>DELETE /api/channels/:id\<close> (lines 994 to 1019). \<open>channelId = None\<close> is a path segment
  that is no ObjectId: the cast in \<open>findById\<close> throws. Store call sites: 0
  \<open>Channel.findById\<close>, 1 \<open>Message.deleteMany\<close>, 2 \<open>Channel.findByIdAndDelete\<close>.
  \<open>ChannelDeleted name n\<close> is the answer 200 with \<open>deletedMessages = n\<close>.
\<close>

definition delete_channel :: "faults \<Rightarrow> object_id option \<Rightarrow> state \<Rightarrow> state \<times> response" where
  "delete_channel flt channelId st =
     (case channelId of
        None \<Rightarrow> (st, ErrorResponse 500 ''Failed to delete channel'')
      | Some cid \<Rightarrow>
          if flt 0 then (st, ErrorResponse 500 ''Failed to delete channel'')
          else
            (case findById_channel cid (channel_docs st) of
               None \<Rightarrow> (st, ErrorResponse 404 ''Channel not found'')
             | Some channel \<Rightarrow>
                 if flt 1 then (st, ErrorResponse 500 ''Failed to delete channel'')
                 else
                   let deletedCount =
                         length (filter (\<lambda>m. msg_channel m = chan_name channel) (messages st));
                       st1 = st\<lparr>messages :=
                                  filter (\<lambda>m. msg_channel m \<noteq> chan_name channel) (messages st)\<rparr>
                   in
                     if flt 2 then (st1, ErrorResponse 500 ''Failed to delete channel'')
                     else
                       (st1\<lparr>channel_docs :=
                              filter (\<lambda>c. chan_id c \<noteq> cid) (channel_docs st1)\<rparr>,
                        ChannelDeleted (chan_name channel) deletedCount)))"

section \<open>Start of the process\<close>

text \<open>
  The text channels of \<open>initializeChannels\<close> in the second server variant (lines 417 to
  442); the voice channels that follow live in a collection of their own, which no
  handler above reads. Store call sites: 0 \<open>User.findOne\<close>, 1 \<open>systemUser.save\<close>, and in
  round \<open>k\<close> of the loop \<open>2 * k + 2\<close> \<open>Channel.findOne\<close>, \<open>2 * k + 3\<close> \<open>channel.save\<close>.
  A throw ends the function. The avatar and the role of the system user are the defaults
  of the schema, taken to be those of the create branch of join.
\<close>

definition system_user :: "object_id \<Rightarrow> date \<Rightarrow> user" where
  "system_user i now =
     \<lparr>u_id = i, username = ''system'',
      walletAddress = ''0x0000000000000000000000000000000000000000'',
      avatar = None, role = ''user'', isOnline = False, socketId = None,
      lastSeen = now, joinedAt = now\<rparr>"

fun initialize_text_channels ::
  "faults \<Rightarrow> object_id \<Rightarrow> nat \<Rightarrow> string list \<Rightarrow> state \<Rightarrow> state" where
  "initialize_text_channels flt systemUserId k [] st = st"
| "initialize_text_channels flt systemUserId k (channelName # rest) st =
     (if flt (2 * k + 2) then st
      else
        (case findOne_channel channelName (channel_docs st) of
           Some existingChannel \<Rightarrow> initialize_text_channels flt systemUserId (Suc k) rest st
         | None \<Rightarrow>
             let channel =
                   \<lparr>chan_id = nextId st, chan_name = channelName,
                    description = ''Default '' @ channelName @ '' channel'', isActive = True,
                    messageCount = 0, lastMessageAt = None, createdBy = systemUserId\<rparr>;
                 st1 = st\<lparr>nextId := Suc (nextId st)\<rparr>
             in
               if flt (2 * k + 3) then st1
               else
                 initialize_text_channels flt systemUserId (Suc k) rest
                   (st1\<lparr>channel_docs := channel_docs st1 @ [channel]\<rparr>)))"

definition initializeChannels :: "faults \<Rightarrow> date \<Rightarrow> state \<Rightarrow> state" where
  "initializeChannels flt now st =
     (if flt 0 then st
      else
        (case find (\<lambda>u. username u = ''system'') (users st) of
           Some systemUser \<Rightarrow> initialize_text_channels flt (u_id systemUser) 0 channels st
         | None \<Rightarrow>
             let systemUser = system_user (nextId st) now;
                 st1 = st\<lparr>nextId := Suc (nextId st)\<rparr>
             in
               if flt 1 then st1
               else
                 (case insert_user systemUser (users st1) of
                    None \<Rightarrow> st1
                  | Some us \<Rightarrow>
                      initialize_text_channels flt (u_id systemUser) 0 channels
                        (st1\<lparr>users := us\<rparr>))))"

text \<open>A new process on an empty database.\<close>

definition empty_state :: state where
  "empty_state = \<lparr>users = [], messages = [], channel_docs = [], activeConnections = [], nextId = 0\<rparr>"

section \<open>What the properties speak of\<close>

text \<open>A handler succeeded when it sent no \<open>messageError\<close>.\<close>

fun is_messageError :: "emission \<Rightarrow> bool" where
  "is_messageError (SocketEmit sid ev p) = (ev = ''messageError'')"
| "is_messageError e = False"

definition succeeded :: "state \<times> emission list \<Rightarrow> bool" where
  "succeeded r = (\<not> list_ex is_messageError (snd r))"

text \<open>
  The precondition of the message handlers: the connection resolves to a user through
  the registry, and that user is online.
\<close>

definition registered_online :: "socket_id \<Rightarrow> state \<Rightarrow> bool" where
  "registered_online sid st =
     (case map_of (activeConnections st) sid of
        None \<Rightarrow> False
      | Some userId \<Rightarrow>
          (case findById_user userId (users st) of None \<Rightarrow> False | Some user \<Rightarrow> isOnline user))"

text \<open>What a successful send does to the channel it counts for.\<close>

definition counted :: "date \<Rightarrow> channel \<Rightarrow> channel" where
  "counted ts ch = ch\<lparr>lastMessageAt := Some ts, messageCount := messageCount ch + 1\<rparr>"

text \<open>The users that the registry binds a connection to.\<close>

definition bound_users :: "state \<Rightarrow> object_id set" where
  "bound_users st = snd ` set (activeConnections st)"

text \<open>The presence equivalence: a user is online exactly when some connection is bound to it.\<close>

definition online_iff_bound :: "state \<Rightarrow> bool" where
  "online_iff_bound st = (\<forall>u \<in> set (users st). isOnline u = (u_id u \<in> bound_users st))"

text \<open>
  The store and the registry are well formed: identifiers of users are distinct and came
  from the counter, the registry has one entry for a connection, and points to
  identifiers that came from the counter.
\<close>

definition well_formed :: "state \<Rightarrow> bool" where
  "well_formed st =
     (distinct (map u_id (users st)) \<and> (\<forall>u \<in> set (users st). u_id u < nextId st) \<and>
      distinct (map fst (activeConnections st)) \<and> (\<forall>i \<in> bound_users st. i < nextId st))"

text \<open>No user is bound to two connections.\<close>

definition one_connection_per_user :: "state \<Rightarrow> bool" where
  "one_connection_per_user st = distinct (map snd (activeConnections st))"

text \<open>What join and disconnect keep, when every join keeps to one session.\<close>

definition presence_invariant :: "state \<Rightarrow> bool" where
  "presence_invariant st = (well_formed st \<and> one_connection_per_user st \<and> online_iff_bound st)"

text \<open>
  A join keeps to one session: it arrives on a connection that is unbound and resolves to
  a new user or to one that is offline, or it repeats the join of the user the
  connection is bound to. An explicit leave, and a payload that lacks the username or the
  wallet address, always do.
\<close>

definition single_session :: "socket_id \<Rightarrow> user_data option \<Rightarrow> state \<Rightarrow> bool" where
  "single_session sid userData st =
     (case userData of
        None \<Rightarrow> True
      | Some d \<Rightarrow>
          if ud_username d \<noteq> [] \<and> ud_walletAddress d \<noteq> [] then
            (case findOne_user_or (ud_username d) (ud_walletAddress d) (users st) of
               None \<Rightarrow> map_of (activeConnections st) sid = None
             | Some found \<Rightarrow>
                 (map_of (activeConnections st) sid = None \<and> \<not> isOnline found) \<or>
                 map_of (activeConnections st) sid = Some (u_id found))
          else True)"

section \<open>A session\<close>

text \<open>
  The database as \<open>initializeChannels\<close> leaves it at the first start, and the same after
  alice has joined on connection \<open>s1\<close>.
\<close>

definition alice :: user_data where
  "alice = \<lparr>ud_username = ''alice'', ud_walletAddress = ''0xAAA'', ud_avatar = [], ud_role = []\<rparr>"

definition seeded :: state where
  "seeded = initializeChannels no_faults 0 empty_state"

definition alice_joined :: state where
  "alice_joined = fst (join no_faults 1 ''s1'' (Some alice) seeded)"

text \<open>Alice sends one message to nft and one to the default channel.\<close>

definition alice_sent :: state where
  "alice_sent =
     fst (sendMessage no_faults 9 ''s1'' (Some \<lparr>md_text = ''hi'', md_channel = ''nft''\<rparr>) alice_joined)"

definition alice_sent_twice :: state where
  "alice_sent_twice =
     fst (sendMessage no_faults 10 ''s1'' (Some \<lparr>md_text = ''yo'', md_channel = []\<rparr>) alice_sent)"

text \<open>The channel general is deleted while alice is online.\<close>

definition general_deleted :: state where
  "general_deleted = fst (delete_channel no_faults (Some 1) alice_joined)"

text \<open>Alice joins a second time, from connection \<open>s2\<close>, and then connection \<open>s1\<close> drops.\<close>

definition two_connections :: state where
  "two_connections = fst (join no_faults 2 ''s2'' (Some alice) alice_joined)"

definition first_dropped :: state where
  "first_dropped = fst (disconnect no_faults ''s1'' two_connections)"

section \<open>Facts about the store operations\<close>

lemma findOne_updated_same:
  "findOne_channel c (findOneAndUpdate_inc c ts chs) = map_option (counted ts) (findOne_channel c chs)"
  by (induction chs) (simp_all add: findOne_channel_def counted_def)

lemma findOne_updated_other:
  "c' \<noteq> c \<Longrightarrow> findOne_channel c' (findOneAndUpdate_inc c ts chs) = findOne_channel c' chs"
  by (induction chs) (simp_all add: findOne_channel_def)

lemma length_findOneAndUpdate_inc [simp]:
  "length (findOneAndUpdate_inc c ts chs) = length chs"
  by (induction chs) simp_all

lemma nth_findOneAndUpdate_inc_other:
  "i < length chs \<Longrightarrow> chan_name (chs ! i) \<noteq> c \<Longrightarrow> findOneAndUpdate_inc c ts chs ! i = chs ! i"
proof (induction chs arbitrary: i)
  case Nil
  then show ?case by simp
next
  case (Cons ch chs)
  then show ?case by (cases i) auto
qed

lemma findOneAndUpdate_inc_absent:
  "findOne_channel c chs = None \<Longrightarrow> findOneAndUpdate_inc c ts chs = chs"
  by (induction chs) (simp_all add: findOne_channel_def split: if_splits)

lemma distinct_channels: "distinct channels"
  by (simp add: channels_def)

lemma save_user_nth:
  "distinct (map u_id us) \<Longrightarrow> i < length us \<Longrightarrow> u_id u' = u_id (us ! i) \<Longrightarrow>
     save_user u' us = us[i := u']"
proof (induction us arbitrary: i)
  case Nil
  then show ?case by simp
next
  case (Cons v vs)
  show ?case
  proof (cases i)
    case 0
    with Cons.prems show ?thesis by simp
  next
    case (Suc j)
    with Cons.prems have j: "j < length vs" and id: "u_id u' = u_id (vs ! j)"
      by simp_all
    from j have "u_id (vs ! j) \<in> set (map u_id vs)"
      by simp
    with Cons.prems(1) id have "u_id v \<noteq> u_id u'"
      by auto
    moreover from Cons.prems(1) have "distinct (map u_id vs)"
      by simp
    ultimately show ?thesis
      using Cons.IH [OF _ j id] Suc by simp
  qed
qed

lemma map_u_id_save_user [simp]: "map u_id (save_user u us) = map u_id us"
  by (induction us) simp_all

lemma set_save_user:
  assumes "distinct (map u_id us)" and "found \<in> set us" and "u_id u' = u_id found"
  shows "set (save_user u' us) = insert u' (set us - {found})"
proof -
  from assms(2) obtain i where i: "i < length us" "us ! i = found"
    by (auto simp: in_set_conv_nth)
  with assms have "save_user u' us = us[i := u']"
    by (simp add: save_user_nth)
  moreover from assms(1) have "distinct us"
    by (simp add: distinct_map)
  ultimately show ?thesis
    using i by (simp add: set_update_distinct)
qed

lemma findById_user_SomeD:
  "findById_user i us = Some u \<Longrightarrow> u \<in> set us \<and> u_id u = i"
  by (auto simp: findById_user_def find_Some_iff)

lemma findOne_user_or_SomeD:
  "findOne_user_or un w us = Some u \<Longrightarrow> u \<in> set us"
  by (auto simp: findOne_user_or_def find_Some_iff)

lemma update_unbound: "map_of al k = None \<Longrightarrow> AList.update k v al = al @ [(k, v)]"
  by (induction al) (auto split: if_splits)

lemma bound_after_delete:
  assumes "distinct (map fst al)" and "distinct (map snd al)" and "map_of al k = Some v"
  shows "snd ` set (AList.delete k al) = snd ` set al - {v}"
proof -
  from assms(3) have kv: "(k, v) \<in> set al"
    by (rule map_of_SomeD)
  from assms(1,2) have inj: "inj_on fst (set al)" "inj_on snd (set al)"
    by (simp_all add: distinct_map)
  have "fst p \<noteq> k \<longleftrightarrow> snd p \<noteq> v" if "p \<in> set al" for p
    using that kv inj by (metis fst_conv snd_conv inj_onD)
  then show ?thesis
    by (force simp: AList.delete_eq)
qed

section \<open>Facts about the broadcast loop\<close>

lemma broadcast_loop_prefix:
  "broadcast_loop flt clock u txt k cs st acc = (st', r) \<Longrightarrow>
     \<exists>new. messages st' = messages st @ new \<and> map msg_channel new = take (length new) cs \<and>
       (\<forall>m \<in> set new. valid_message m)"
proof (induction cs arbitrary: k st acc)
  case Nil
  then show ?case by simp
next
  case (Cons c cs)
  let ?m = "new_Message (nextId st) (clock k) (username u) txt c (avatar u) (u_id u) True"
  show ?case
  proof (cases "flt (2 * k + 1) \<or> \<not> valid_message ?m")
    case True
    with Cons.prems have "st' = st\<lparr>nextId := Suc (nextId st)\<rparr>"
      by (auto simp: Let_def)
    then show ?thesis by simp
  next
    case save: False
    show ?thesis
    proof (cases "flt (2 * k + 2)")
      case True
      with save Cons.prems
      have "st' = st\<lparr>nextId := Suc (nextId st), messages := messages st @ [?m]\<rparr>"
        by (auto simp: Let_def)
      with save show ?thesis
        by (simp add: new_Message_def)
    next
      case False
      with save Cons.prems
      have "broadcast_loop flt clock u txt (Suc k) cs
              (st\<lparr>nextId := Suc (nextId st), messages := messages st @ [?m],
                  channel_docs := findOneAndUpdate_inc c (clock k) (channel_docs st)\<rparr>)
              (acc @ [message_payload ?m]) = (st', r)"
        by (simp add: Let_def new_Message_def)
      from Cons.IH [OF this] obtain new where
        "messages st' = (messages st @ [?m]) @ new"
        "map msg_channel new = take (length new) cs" "\<forall>m \<in> set new. valid_message m"
        by auto
      with save have "messages st' = messages st @ (?m # new) \<and>
          map msg_channel (?m # new) = take (length (?m # new)) (c # cs) \<and>
          (\<forall>m \<in> set (?m # new). valid_message m)"
        by (simp add: new_Message_def)
      then show ?thesis by blast
    qed
  qed
qed

lemma broadcast_loop_complete:
  "broadcast_loop flt clock u txt k cs st acc = (st', Some out) \<Longrightarrow>
     \<exists>new. messages st' = messages st @ new \<and> map msg_channel new = cs \<and>
       (\<forall>m \<in> set new. msg_text m = trim txt \<and> msg_isBroadcast m) \<and>
       map msg_timestamp new = map (\<lambda>j. clock (k + j)) [0..<length cs] \<and>
       out = acc @ map message_payload new"
proof (induction cs arbitrary: k st acc)
  case Nil
  then show ?case by simp
next
  case (Cons c cs)
  let ?m = "new_Message (nextId st) (clock k) (username u) txt c (avatar u) (u_id u) True"
  from Cons.prems
  have "broadcast_loop flt clock u txt (Suc k) cs
          (st\<lparr>nextId := Suc (nextId st), messages := messages st @ [?m],
              channel_docs := findOneAndUpdate_inc c (clock k) (channel_docs st)\<rparr>)
          (acc @ [message_payload ?m]) = (st', Some out)"
    by (simp add: Let_def new_Message_def split: if_splits)
  from Cons.IH [OF this] obtain new where
    "messages st' = (messages st @ [?m]) @ new" "map msg_channel new = cs"
    "\<forall>m \<in> set new. msg_text m = trim txt \<and> msg_isBroadcast m"
    "map msg_timestamp new = map (\<lambda>j. clock (Suc k + j)) [0..<length cs]"
    "out = (acc @ [message_payload ?m]) @ map message_payload new"
    by auto
  then have "messages st' = messages st @ (?m # new) \<and> map msg_channel (?m # new) = c # cs \<and>
      (\<forall>m \<in> set (?m # new). msg_text m = trim txt \<and> msg_isBroadcast m) \<and>
      map msg_timestamp (?m # new) = map (\<lambda>j. clock (k + j)) [0..<length (c # cs)] \<and>
      out = acc @ map message_payload (?m # new)"
    by (simp add: new_Message_def map_upt_Suc del: upt_Suc)
  then show ?case by (intro exI [of _ "?m # new"])
qed

lemma broadcast_loop_docs:
  "broadcast_loop flt clock u txt k cs st acc = (st', Some out) \<Longrightarrow> distinct cs \<Longrightarrow>
     (\<forall>j < length cs. findOne_channel (cs ! j) (channel_docs st') =
        map_option (counted (clock (k + j))) (findOne_channel (cs ! j) (channel_docs st))) \<and>
     (\<forall>c. c \<notin> set cs \<longrightarrow> findOne_channel c (channel_docs st') = findOne_channel c (channel_docs st))"
proof (induction cs arbitrary: k st acc)
  case Nil
  then show ?case by simp
next
  case (Cons c cs)
  let ?m = "new_Message (nextId st) (clock k) (username u) txt c (avatar u) (u_id u) True"
  let ?docs = "findOneAndUpdate_inc c (clock k) (channel_docs st)"
  from Cons.prems(1)
  have "broadcast_loop flt clock u txt (Suc k) cs
          (st\<lparr>nextId := Suc (nextId st), messages := messages st @ [?m], channel_docs := ?docs\<rparr>)
          (acc @ [message_payload ?m]) = (st', Some out)"
    by (simp add: Let_def new_Message_def split: if_splits)
  moreover from Cons.prems(2) have d: "distinct cs" and c: "c \<notin> set cs"
    by simp_all
  ultimately have
    later: "\<And>j. j < length cs \<Longrightarrow> findOne_channel (cs ! j) (channel_docs st') =
        map_option (counted (clock (Suc k + j))) (findOne_channel (cs ! j) ?docs)" and
    rest: "\<And>c'. c' \<notin> set cs \<Longrightarrow> findOne_channel c' (channel_docs st') = findOne_channel c' ?docs"
    using Cons.IH by force+
  show ?case
  proof (intro conjI allI impI)
    fix j
    assume j: "j < length (c # cs)"
    show "findOne_channel ((c # cs) ! j) (channel_docs st') =
        map_option (counted (clock (k + j))) (findOne_channel ((c # cs) ! j) (channel_docs st))"
    proof (cases j)
      case 0
      with rest [OF c] show ?thesis
        by (simp add: findOne_updated_same)
    next
      case (Suc j')
      with j have j': "j' < length cs"
        by simp
      with c have "cs ! j' \<noteq> c"
        by auto
      with later [OF j'] Suc show ?thesis
        by (simp add: findOne_updated_other)
    qed
  next
    fix c'
    assume "c' \<notin> set (c # cs)"
    then have "c' \<notin> set cs" "c' \<noteq> c"
      by simp_all
    with rest show "findOne_channel c' (channel_docs st') = findOne_channel c' (channel_docs st)"
      by (simp add: findOne_updated_other)
  qed
qed

lemma valid_new_Message:
  "valid_message (new_Message i now un body ch av uid bc) =
     (trim un \<noteq> [] \<and> trim body \<noteq> [] \<and> length (trim body) \<le> 1000 \<and>
      ch \<in> set message_channel_enum)"
  by (simp add: valid_message_def new_Message_def)

lemma broadcast_loop_fault:
  "broadcast_loop flt clock u body k cs st acc = (st', r) \<Longrightarrow> k \<le> i \<Longrightarrow> i < k + length cs \<Longrightarrow>
     flt (2 * i + 1) \<or>
       \<not> valid_message (new_Message j t (username u) body (cs ! (i - k)) (avatar u) (u_id u) True) \<Longrightarrow>
     r = None \<and> length (messages st') \<le> length (messages st) + (i - k)"
proof (induction cs arbitrary: k st acc)
  case Nil
  then show ?case by simp
next
  case (Cons c cs)
  let ?m = "new_Message (nextId st) (clock k) (username u) body c (avatar u) (u_id u) True"
  show ?case
  proof (cases "flt (2 * k + 1) \<or> \<not> valid_message ?m")
    case True
    with Cons.prems(1) show ?thesis
      by (auto simp: Let_def)
  next
    case save: False
    have "i \<noteq> k"
    proof
      assume "i = k"
      with Cons.prems(4) save show False
        by (simp add: valid_new_Message)
    qed
    with Cons.prems(2) have ki: "Suc k \<le> i"
      by simp
    then have nth: "(c # cs) ! (i - k) = cs ! (i - Suc k)"
      by (simp add: Suc_diff_le)
    show ?thesis
    proof (cases "flt (2 * k + 2)")
      case True
      with save Cons.prems(1) ki show ?thesis
        by (auto simp: Let_def)
    next
      case False
      with save Cons.prems(1)
      have "broadcast_loop flt clock u body (Suc k) cs
              (st\<lparr>nextId := Suc (nextId st), messages := messages st @ [?m],
                  channel_docs := findOneAndUpdate_inc c (clock k) (channel_docs st)\<rparr>)
              (acc @ [message_payload ?m]) = (st', r)"
        by (simp add: Let_def new_Message_def)
      from Cons.IH [OF this ki _ Cons.prems(4) [unfolded nth]] Cons.prems(3)
      have "r = None"
        and "length (messages st') \<le> length (messages st @ [?m]) + (i - Suc k)"
        by simp_all
      with ki show ?thesis
        by simp
    qed
  qed
qed

section \<open>Facts about the presence invariant\<close>

lemma inv_bump:
  assumes "presence_invariant st"
    and "users st' = users st" and "activeConnections st' = activeConnections st"
    and "nextId st' = nextId st \<or> nextId st' = Suc (nextId st)"
  shows "presence_invariant st'"
  using assms
  by (auto simp: presence_invariant_def well_formed_def one_connection_per_user_def
      online_iff_bound_def bound_users_def less_Suc_eq)

lemma inv_join_new:
  assumes inv: "presence_invariant st"
    and unbound: "map_of (activeConnections st) sid = None"
    and u: "u_id u = nextId st" "isOnline u"
    and st': "users st' = users st @ [u]"
      "activeConnections st' = AList.update sid (nextId st) (activeConnections st)"
      "nextId st' = Suc (nextId st)"
  shows "presence_invariant st'"
proof -
  from unbound have al: "activeConnections st' = activeConnections st @ [(sid, nextId st)]"
    and key: "sid \<notin> fst ` set (activeConnections st)"
    by (simp_all add: st'(2) update_unbound map_of_eq_None_iff)
  from inv have fresh: "nextId st \<notin> u_id ` set (users st)" "nextId st \<notin> bound_users st"
    by (auto simp: presence_invariant_def well_formed_def)
  from inv fresh key u show ?thesis
    by (auto simp: presence_invariant_def well_formed_def one_connection_per_user_def
        online_iff_bound_def bound_users_def al st'(1,3) less_Suc_eq)
qed

lemma inv_join_found:
  assumes inv: "presence_invariant st"
    and found: "found \<in> set (users st)"
    and guard: "(map_of (activeConnections st) sid = None \<and> \<not> isOnline found) \<or>
      map_of (activeConnections st) sid = Some (u_id found)"
    and u: "u_id u = u_id found" "isOnline u"
    and st': "users st' = save_user u (users st)"
      "activeConnections st' = AList.update sid (u_id found) (activeConnections st)"
      "nextId st' = nextId st"
  shows "presence_invariant st'"
proof -
  from inv have d: "distinct (map u_id (users st))"
    by (simp add: presence_invariant_def well_formed_def)
  then have inj: "inj_on u_id (set (users st))"
    by (simp add: distinct_map)
  have ids: "map u_id (users st') = map u_id (users st)"
    by (simp add: st'(1))
  have us: "set (users st') = insert u (set (users st) - {found})"
    using d found u(1) by (simp add: st'(1) set_save_user)
  have others: "u_id v \<noteq> u_id found" if "v \<in> set (users st)" "v \<noteq> found" for v
    using that found inj by (auto dest: inj_onD)
  from guard show ?thesis
  proof
    assume g: "map_of (activeConnections st) sid = None \<and> \<not> isOnline found"
    then have al: "activeConnections st' = activeConnections st @ [(sid, u_id found)]"
      and key: "sid \<notin> fst ` set (activeConnections st)"
      by (simp_all add: st'(2) update_unbound map_of_eq_None_iff)
    from inv found g have nb: "u_id found \<notin> bound_users st"
      by (auto simp: presence_invariant_def online_iff_bound_def)
    from inv found have lt: "u_id found < nextId st"
      by (auto simp: presence_invariant_def well_formed_def)
    from inv key nb lt u others show ?thesis
      by (auto simp: presence_invariant_def well_formed_def one_connection_per_user_def
          online_iff_bound_def bound_users_def al us ids st'(3))
  next
    assume g: "map_of (activeConnections st) sid = Some (u_id found)"
    then have al: "activeConnections st' = activeConnections st"
      by (simp add: st'(2) AList.update_triv)
    from g have b: "u_id found \<in> bound_users st"
      by (force simp: bound_users_def dest: map_of_SomeD)
    from inv b u others show ?thesis
      by (auto simp: presence_invariant_def well_formed_def one_connection_per_user_def
          online_iff_bound_def bound_users_def al us ids st'(3))
  qed
qed

lemma inv_leave:
  assumes inv: "presence_invariant st"
    and bound: "map_of (activeConnections st) sid = Some userId"
    and found: "findById_user userId (users st) = Some found"
    and u: "u_id u = u_id found" "\<not> isOnline u"
    and st': "users st' = save_user u (users st)"
      "activeConnections st' = AList.delete sid (activeConnections st)"
      "nextId st' = nextId st"
  shows "presence_invariant st'"
proof -
  from found have f: "found \<in> set (users st)" "u_id found = userId"
    by (auto dest: findById_user_SomeD)
  from inv have d: "distinct (map u_id (users st))"
    by (simp add: presence_invariant_def well_formed_def)
  then have inj: "inj_on u_id (set (users st))"
    by (simp add: distinct_map)
  have ids: "map u_id (users st') = map u_id (users st)"
    by (simp add: st'(1))
  have us: "set (users st') = insert u (set (users st) - {found})"
    using d f(1) u(1) by (simp add: st'(1) set_save_user)
  have others: "u_id v \<noteq> userId" if "v \<in> set (users st)" "v \<noteq> found" for v
    using that f inj by (auto dest: inj_onD)
  from inv bound have b: "bound_users st' = bound_users st - {userId}"
    by (simp add: bound_users_def st'(2) presence_invariant_def well_formed_def
        one_connection_per_user_def bound_after_delete)
  from inv have dd: "distinct (map fst (activeConnections st'))"
    "distinct (map snd (activeConnections st'))"
    by (simp_all add: st'(2) presence_invariant_def well_formed_def one_connection_per_user_def
        AList.delete_eq distinct_map_filter)
  from inv u f others dd show ?thesis
    by (auto simp: presence_invariant_def well_formed_def one_connection_per_user_def
        online_iff_bound_def b us ids st'(3))
qed

lemma inv_drop_dangling:
  assumes inv: "presence_invariant st"
    and bound: "map_of (activeConnections st) sid = Some userId"
    and none: "findById_user userId (users st) = None"
    and st': "users st' = users st"
      "activeConnections st' = AList.delete sid (activeConnections st)"
      "nextId st' = nextId st"
  shows "presence_invariant st'"
proof -
  from none have others: "u_id v \<noteq> userId" if "v \<in> set (users st)" for v
    using that by (auto simp: findById_user_def find_None_iff)
  from inv bound have b: "bound_users st' = bound_users st - {userId}"
    by (simp add: bound_users_def st'(2) presence_invariant_def well_formed_def
        one_connection_per_user_def bound_after_delete)
  from inv have dd: "distinct (map fst (activeConnections st'))"
    "distinct (map snd (activeConnections st'))"
    by (simp_all add: st'(2) presence_invariant_def well_formed_def one_connection_per_user_def
        AList.delete_eq distinct_map_filter)
  from inv others dd show ?thesis
    by (auto simp: presence_invariant_def well_formed_def one_connection_per_user_def
        online_iff_bound_def b st'(1,3))
qed

lemma join_keeps_invariant:
  assumes inv: "presence_invariant st" and guard: "single_session sid userData st"
  shows "presence_invariant (fst (join flt now sid userData st))"
proof (cases userData)
  case None
  show ?thesis
  proof (cases "map_of (activeConnections st) sid")
    case unbound: None
    with None inv show ?thesis
      by (simp add: join_def)
  next
    case (Some userId)
    show ?thesis
    proof (cases "findById_user userId (users st)")
      case absent: None
      with None Some inv show ?thesis
        by (simp add: join_def)
    next
      case found: (Some found)
      show ?thesis
      proof (cases "flt 0 \<or> flt 1")
        case True
        with None Some found inv show ?thesis
          by (auto simp: join_def Let_def)
      next
        case False
        with None Some found show ?thesis
          by (auto simp: join_def Let_def intro!: inv_leave [where u = "found\<lparr>isOnline := False, socketId := None\<rparr>", OF inv Some found])
      qed
    qed
  qed
next
  case (Some d)
  show ?thesis
  proof (cases "ud_username d \<noteq> [] \<and> ud_walletAddress d \<noteq> [] \<and> \<not> flt 0")
    case False
    with Some inv show ?thesis
      by (auto simp: join_def)
  next
    case valid: True
    show ?thesis
    proof (cases "findOne_user_or (ud_username d) (ud_walletAddress d) (users st)")
      case None
      with Some valid guard have unbound: "map_of (activeConnections st) sid = None"
        by (simp add: single_session_def)
      from None have ins: "insert_user (join_create (nextId st) now sid d) (users st) =
          Some (users st @ [join_create (nextId st) now sid d])"
        by (auto simp: insert_user_def findOne_user_or_def find_None_iff join_create_def)
      show ?thesis
      proof (cases "flt 1")
        case True
        with Some valid None show ?thesis
          by (auto simp: join_def Let_def intro!: inv_bump [OF inv])
      next
        case False
        with Some valid None ins show ?thesis
          by (auto simp: join_def Let_def join_create_def
              intro!: inv_join_new [OF inv unbound, of "join_create (nextId st) now sid d"])
      qed
    next
      case found: (Some found)
      with Some valid guard
      have g: "(map_of (activeConnections st) sid = None \<and> \<not> isOnline found) \<or>
          map_of (activeConnections st) sid = Some (u_id found)"
        by (simp add: single_session_def)
      from found have mem: "found \<in> set (users st)"
        by (rule findOne_user_or_SomeD)
      have u: "u_id (join_update now sid d found) = u_id found"
        "isOnline (join_update now sid d found)"
        by (simp_all add: join_update_def Let_def)
      show ?thesis
      proof (cases "flt 1")
        case True
        with Some valid found inv show ?thesis
          by (simp add: join_def Let_def)
      next
        case False
        with Some valid found u show ?thesis
          by (auto simp: join_def Let_def intro!: inv_join_found [OF inv mem g u])
      qed
    qed
  qed
qed

lemma disconnect_keeps_invariant:
  assumes inv: "presence_invariant st"
  shows "presence_invariant (fst (disconnect flt sid st))"
proof (cases "map_of (activeConnections st) sid")
  case None
  with inv show ?thesis
    by (simp add: disconnect_def)
next
  case (Some userId)
  show ?thesis
  proof (cases "flt 0")
    case True
    with Some inv show ?thesis
      by (simp add: disconnect_def)
  next
    case f0: False
    show ?thesis
    proof (cases "findById_user userId (users st)")
      case None
      with Some f0 show ?thesis
        by (auto simp: disconnect_def intro!: inv_drop_dangling [OF inv Some None])
    next
      case found: (Some found)
      show ?thesis
      proof (cases "flt 1")
        case True
        with Some f0 found inv show ?thesis
          by (simp add: disconnect_def Let_def)
      next
        case False
        with Some f0 found show ?thesis
          by (auto simp: disconnect_def Let_def intro!: inv_leave [where u = "found\<lparr>isOnline := False, socketId := None\<rparr>", OF inv Some found])
      qed
    qed
  qed
qed

section \<open>Facts about the session\<close>

lemma seeded_eq:
  "seeded =
     \<lparr>users = [system_user 0 0],
      messages = [],
      channel_docs =
        [\<lparr>chan_id = 1, chan_name = ''general'', description = ''Default general channel'',
          isActive = True, messageCount = 0, lastMessageAt = None, createdBy = 0\<rparr>,
         \<lparr>chan_id = 2, chan_name = ''trading'', description = ''Default trading channel'',
          isActive = True, messageCount = 0, lastMessageAt = None, createdBy = 0\<rparr>,
         \<lparr>chan_id = 3, chan_name = ''nft'', description = ''Default nft channel'',
          isActive = True, messageCount = 0, lastMessageAt = None, createdBy = 0\<rparr>,
         \<lparr>chan_id = 4, chan_name = ''defi'', description = ''Default defi channel'',
          isActive = True, messageCount = 0, lastMessageAt = None, createdBy = 0\<rparr>,
         \<lparr>chan_id = 5, chan_name = ''announcements'',
          description = ''Default announcements channel'',
          isActive = True, messageCount = 0, lastMessageAt = None, createdBy = 0\<rparr>],
      activeConnections = [], nextId = 6\<rparr>"
  by (simp add: seeded_def initializeChannels_def no_faults_def empty_state_def insert_user_def
      system_user_def channels_def findOne_channel_def Let_def)

lemma alice_joined_eq:
  "alice_joined =
     seeded\<lparr>users := users seeded @
              [\<lparr>u_id = 6, username = ''alice'', walletAddress = ''0xAAA'', avatar = None,
                role = ''user'', isOnline = True, socketId = Some ''s1'', lastSeen = 1,
                joinedAt = 1\<rparr>],
            activeConnections := [(''s1'', 6)], nextId := 7\<rparr>"
  by (simp add: alice_joined_def seeded_eq join_def alice_def no_faults_def findOne_user_or_def
      system_user_def join_create_def insert_user_def Let_def)

lemma alice_sends:
  "sendMessage no_faults 9 ''s1'' (Some \<lparr>md_text = ''hi'', md_channel = ''nft''\<rparr>) alice_joined =
     (alice_joined
        \<lparr>messages :=
           [\<lparr>msg_id = 7, msg_username = ''alice'', msg_text = ''hi'', msg_channel = ''nft'',
             msg_avatar = None, msg_isBroadcast = False, msg_userId = 6, msg_timestamp = 9\<rparr>],
         channel_docs := findOneAndUpdate_inc ''nft'' 9 (channel_docs alice_joined),
         nextId := 8\<rparr>,
      [IoEmit ''newMessage'' (NewMessage 7 ''alice'' ''hi'' 9 None ''nft'' False)])"
  by (simp add: sendMessage_def alice_joined_eq seeded_eq no_faults_def findById_user_def
      system_user_def new_Message_def trim_def is_ws_def valid_message_def message_channel_enum_def
      channel_or_general_def message_payload_def Let_def)

lemma alice_sends_lobby:
  "sendMessage no_faults 9 ''s1'' (Some \<lparr>md_text = ''hi'', md_channel = ''lobby''\<rparr>) alice_joined =
     (alice_joined\<lparr>nextId := 8\<rparr>,
      [SocketEmit ''s1'' ''messageError'' (ErrorMsg ''Server error processing message'')])"
  by (simp add: sendMessage_def alice_joined_eq seeded_eq no_faults_def findById_user_def
      system_user_def new_Message_def trim_def is_ws_def valid_message_def message_channel_enum_def
      channel_or_general_def send_failed_def Let_def)

lemma alice_sent_eq:
  "alice_sent =
     alice_joined
       \<lparr>messages :=
          [\<lparr>msg_id = 7, msg_username = ''alice'', msg_text = ''hi'', msg_channel = ''nft'',
            msg_avatar = None, msg_isBroadcast = False, msg_userId = 6, msg_timestamp = 9\<rparr>],
        channel_docs := findOneAndUpdate_inc ''nft'' 9 (channel_docs alice_joined),
        nextId := 8\<rparr>"
  by (simp add: alice_sent_def alice_sends)

lemma alice_sent_twice_eq:
  "alice_sent_twice =
     alice_sent
       \<lparr>messages :=
          [\<lparr>msg_id = 7, msg_username = ''alice'', msg_text = ''hi'', msg_channel = ''nft'',
            msg_avatar = None, msg_isBroadcast = False, msg_userId = 6, msg_timestamp = 9\<rparr>,
           \<lparr>msg_id = 8, msg_username = ''alice'', msg_text = ''yo'', msg_channel = ''general'',
            msg_avatar = None, msg_isBroadcast = False, msg_userId = 6, msg_timestamp = 10\<rparr>],
        channel_docs := findOneAndUpdate_inc ''general'' 10 (channel_docs alice_sent),
        nextId := 9\<rparr>"
  by (simp add: alice_sent_twice_def sendMessage_def alice_sent_eq alice_joined_eq seeded_eq
      no_faults_def findById_user_def
      system_user_def new_Message_def trim_def is_ws_def valid_message_def message_channel_enum_def
      channel_or_general_def message_payload_def Let_def)

lemma alice_broadcasts:
  "broadcastMessage no_faults (\<lambda>k. 9 + k) ''s1'' (Some \<lparr>md_text = ''gm '', md_channel = []\<rparr>) alice_joined =
     (alice_joined
        \<lparr>messages :=
           [\<lparr>msg_id = 7, msg_username = ''alice'', msg_text = ''gm'', msg_channel = ''general'',
             msg_avatar = None, msg_isBroadcast = True, msg_userId = 6, msg_timestamp = 9\<rparr>,
            \<lparr>msg_id = 8, msg_username = ''alice'', msg_text = ''gm'', msg_channel = ''trading'',
             msg_avatar = None, msg_isBroadcast = True, msg_userId = 6, msg_timestamp = 10\<rparr>,
            \<lparr>msg_id = 9, msg_username = ''alice'', msg_text = ''gm'', msg_channel = ''nft'',
             msg_avatar = None, msg_isBroadcast = True, msg_userId = 6, msg_timestamp = 11\<rparr>,
            \<lparr>msg_id = 10, msg_username = ''alice'', msg_text = ''gm'', msg_channel = ''defi'',
             msg_avatar = None, msg_isBroadcast = True, msg_userId = 6, msg_timestamp = 12\<rparr>,
            \<lparr>msg_id = 11, msg_username = ''alice'', msg_text = ''gm'',
             msg_channel = ''announcements'',
             msg_avatar = None, msg_isBroadcast = True, msg_userId = 6, msg_timestamp = 13\<rparr>],
         channel_docs := map2 counted [9, 10, 11, 12, 13] (channel_docs alice_joined),
         nextId := 12\<rparr>,
      [IoEmit ''newMessage'' (NewMessage 7 ''alice'' ''gm'' 9 None ''general'' True),
       IoEmit ''newMessage'' (NewMessage 8 ''alice'' ''gm'' 10 None ''trading'' True),
       IoEmit ''newMessage'' (NewMessage 9 ''alice'' ''gm'' 11 None ''nft'' True),
       IoEmit ''newMessage'' (NewMessage 10 ''alice'' ''gm'' 12 None ''defi'' True),
       IoEmit ''newMessage'' (NewMessage 11 ''alice'' ''gm'' 13 None ''announcements'' True)])"
  by (simp add: broadcastMessage_def alice_joined_eq seeded_eq no_faults_def
      findById_user_def system_user_def channels_def new_Message_def trim_def is_ws_def
      valid_message_def message_channel_enum_def message_payload_def counted_def Let_def)

lemma alice_broadcast_cut:
  "broadcastMessage (\<lambda>n. n = 5) (\<lambda>k. 9 + k) ''s1'' (Some \<lparr>md_text = ''gm '', md_channel = []\<rparr>)
     alice_joined =
     (alice_joined
        \<lparr>messages :=
           [\<lparr>msg_id = 7, msg_username = ''alice'', msg_text = ''gm'', msg_channel = ''general'',
             msg_avatar = None, msg_isBroadcast = True, msg_userId = 6, msg_timestamp = 9\<rparr>,
            \<lparr>msg_id = 8, msg_username = ''alice'', msg_text = ''gm'', msg_channel = ''trading'',
             msg_avatar = None, msg_isBroadcast = True, msg_userId = 6, msg_timestamp = 10\<rparr>],
         channel_docs :=
           map2 counted [9, 10] (take 2 (channel_docs alice_joined)) @
             drop 2 (channel_docs alice_joined),
         nextId := 10\<rparr>,
      [SocketEmit ''s1'' ''messageError'' (ErrorMsg ''Server error processing broadcast message'')])"
  by (simp add: broadcastMessage_def alice_joined_eq seeded_eq broadcast_failed_def
      findById_user_def system_user_def channels_def new_Message_def trim_def is_ws_def
      valid_message_def message_channel_enum_def message_payload_def counted_def Let_def)

lemma general_deleted_eq:
  "general_deleted = alice_joined\<lparr>channel_docs := tl (channel_docs alice_joined)\<rparr>"
  by (simp add: general_deleted_def delete_channel_def alice_joined_eq seeded_eq no_faults_def
      findById_channel_def Let_def)

lemma two_connections_eq:
  "two_connections =
     alice_joined
       \<lparr>users := users seeded @
          [\<lparr>u_id = 6, username = ''alice'', walletAddress = ''0xAAA'', avatar = None,
            role = ''user'', isOnline = True, socketId = Some ''s2'', lastSeen = 2, joinedAt = 1\<rparr>],
        activeConnections := [(''s1'', 6), (''s2'', 6)]\<rparr>"
  by (simp add: two_connections_def alice_joined_eq seeded_eq join_def alice_def no_faults_def
      findOne_user_or_def system_user_def join_update_def Let_def)

lemma first_dropped_eq:
  "first_dropped =
     alice_joined
       \<lparr>users := users seeded @
          [\<lparr>u_id = 6, username = ''alice'', walletAddress = ''0xAAA'', avatar = None,
            role = ''user'', isOnline = False, socketId = None, lastSeen = 2, joinedAt = 1\<rparr>],
        activeConnections := [(''s2'', 6)]\<rparr>"
  by (simp add: first_dropped_def two_connections_eq alice_joined_eq seeded_eq disconnect_def
      no_faults_def findById_user_def system_user_def AList.delete_eq Let_def)

section \<open>The properties\<close>

text \<open>
  C1, as stated, fails: alice joins on connection s1, joins again on connection s2, and
  s1 drops. Her online flag is then false while the registry still binds s2 to her.
\<close>

theorem offline_while_bound:
  "findById_user 6 (users first_dropped) =
     Some \<lparr>u_id = 6, username = ''alice'', walletAddress = ''0xAAA'', avatar = None,
           role = ''user'', isOnline = False, socketId = None, lastSeen = 2, joinedAt = 1\<rparr> \<and>
   activeConnections first_dropped = [(''s2'', 6)]"
  by (simp add: first_dropped_eq alice_joined_eq seeded_eq findById_user_def system_user_def)

text \<open>
  C1, amended. In a well-formed state where no user is bound to two connections and a
  user is online exactly when some connection is bound to it, a join that keeps to one
  session (payload or explicit leave) and a transport disconnect lead, whatever store
  call throws, to a state of the same kind: in particular a user is online there exactly
  when some connection is bound to it.
\<close>

theorem presence_kept_by_single_sessions:
  assumes "well_formed st" and "one_connection_per_user st" and "online_iff_bound st"
  shows "(single_session sid userData st \<longrightarrow>
            well_formed (fst (join flt now sid userData st)) \<and>
            one_connection_per_user (fst (join flt now sid userData st)) \<and>
            online_iff_bound (fst (join flt now sid userData st))) \<and>
         well_formed (fst (disconnect flt' sid' st)) \<and>
         one_connection_per_user (fst (disconnect flt' sid' st)) \<and>
         online_iff_bound (fst (disconnect flt' sid' st))"
proof -
  from assms have inv: "presence_invariant st"
    by (simp add: presence_invariant_def)
  from join_keeps_invariant [OF inv] disconnect_keeps_invariant [OF inv]
  show ?thesis
    by (simp add: presence_invariant_def)
qed

theorem presence_kept_by_single_sessions_witness:
  "well_formed alice_joined \<and> one_connection_per_user alice_joined \<and>
   online_iff_bound alice_joined \<and>
   single_session ''s2''
     (Some \<lparr>ud_username = ''bob'', ud_walletAddress = ''0xBBB'', ud_avatar = [], ud_role = []\<rparr>)
     alice_joined \<and>
   online_iff_bound (fst (join no_faults 3 ''s2''
     (Some \<lparr>ud_username = ''bob'', ud_walletAddress = ''0xBBB'', ud_avatar = [], ud_role = []\<rparr>)
     alice_joined)) \<and>
   map isOnline (users (fst (join no_faults 3 ''s2''
     (Some \<lparr>ud_username = ''bob'', ud_walletAddress = ''0xBBB'', ud_avatar = [], ud_role = []\<rparr>)
     alice_joined))) = [False, True, True] \<and>
   activeConnections (fst (join no_faults 3 ''s2''
     (Some \<lparr>ud_username = ''bob'', ud_walletAddress = ''0xBBB'', ud_avatar = [], ud_role = []\<rparr>)
     alice_joined)) = [(''s1'', 6), (''s2'', 7)] \<and>
   online_iff_bound (fst (disconnect no_faults ''s1'' alice_joined)) \<and>
   map isOnline (users (fst (disconnect no_faults ''s1'' alice_joined))) = [False, False] \<and>
   activeConnections (fst (disconnect no_faults ''s1'' alice_joined)) = []"
proof -
  have a: "well_formed alice_joined" "one_connection_per_user alice_joined"
    "online_iff_bound alice_joined"
    by (simp_all add: well_formed_def one_connection_per_user_def online_iff_bound_def
        bound_users_def alice_joined_eq seeded_eq system_user_def)
  have g: "single_session ''s2''
     (Some \<lparr>ud_username = ''bob'', ud_walletAddress = ''0xBBB'', ud_avatar = [], ud_role = []\<rparr>)
     alice_joined"
    by (simp add: single_session_def findOne_user_or_def alice_joined_eq seeded_eq system_user_def)
  have j: "map isOnline (users (fst (join no_faults 3 ''s2''
     (Some \<lparr>ud_username = ''bob'', ud_walletAddress = ''0xBBB'', ud_avatar = [], ud_role = []\<rparr>)
     alice_joined))) = [False, True, True]"
    "activeConnections (fst (join no_faults 3 ''s2''
     (Some \<lparr>ud_username = ''bob'', ud_walletAddress = ''0xBBB'', ud_avatar = [], ud_role = []\<rparr>)
     alice_joined)) = [(''s1'', 6), (''s2'', 7)]"
    by (simp_all add: join_def alice_joined_eq seeded_eq no_faults_def findOne_user_or_def
        system_user_def join_create_def insert_user_def Let_def)
  have d: "map isOnline (users (fst (disconnect no_faults ''s1'' alice_joined))) = [False, False]"
    "activeConnections (fst (disconnect no_faults ''s1'' alice_joined)) = []"
    by (simp_all add: disconnect_def alice_joined_eq seeded_eq no_faults_def findById_user_def
        system_user_def AList.delete_eq Let_def)
  from presence_kept_by_single_sessions [OF a, of "''s2''"
      "Some \<lparr>ud_username = ''bob'', ud_walletAddress = ''0xBBB'', ud_avatar = [], ud_role = []\<rparr>"
      no_faults 3 no_faults "''s1''"] a g j d
  show ?thesis by simp
qed

text \<open>
  C2. A join with a non-empty username and wallet address whose store calls succeed, on a
  store with distinct user identifiers: when some user has the username or the wallet
  address, the first such user is overwritten at its place with online flag true, the
  socket, the time, and the avatar and the role only where the payload supplies them, and
  the collection keeps its length; when none has, the collection grows by exactly the new
  user, at its end.
\<close>

theorem join_updates_or_creates:
  assumes "ud_username d \<noteq> []" and "ud_walletAddress d \<noteq> []"
    and "\<not> flt 0" and "\<not> flt 1"
    and "distinct (map u_id (users st))"
  shows "(\<forall>found. findOne_user_or (ud_username d) (ud_walletAddress d) (users st) = Some found \<longrightarrow>
            (\<exists>i < length (users st). users st ! i = found \<and>
               users (fst (join flt now sid (Some d) st)) =
                 (users st)[i := found\<lparr>isOnline := True, socketId := Some sid, lastSeen := now,
                    avatar := (if ud_avatar d = [] then avatar found else Some (ud_avatar d)),
                    role := (if ud_role d = [] then role found else ud_role d)\<rparr>]) \<and>
            length (users (fst (join flt now sid (Some d) st))) = length (users st)) \<and>
         (findOne_user_or (ud_username d) (ud_walletAddress d) (users st) = None \<longrightarrow>
            users (fst (join flt now sid (Some d) st)) =
              users st @
                [\<lparr>u_id = nextId st, username = ud_username d, walletAddress = ud_walletAddress d,
                  avatar = (if ud_avatar d = [] then None else Some (ud_avatar d)),
                  role = (if ud_role d = [] then ''user'' else ud_role d),
                  isOnline = True, socketId = Some sid, lastSeen = now, joinedAt = now\<rparr>])"
proof (intro conjI allI impI)
  fix found
  assume f: "findOne_user_or (ud_username d) (ud_walletAddress d) (users st) = Some found"
  then obtain i where i: "i < length (users st)" and at: "users st ! i = found"
    by (auto simp: findOne_user_or_def find_Some_iff)
  have id: "u_id (join_update now sid d found) = u_id (users st ! i)"
    by (simp add: join_update_def at Let_def)
  have "users (fst (join flt now sid (Some d) st)) = save_user (join_update now sid d found) (users st)"
    using assms f by (simp add: join_def Let_def)
  also have "\<dots> = (users st)[i := join_update now sid d found]"
    using assms(5) i id by (rule save_user_nth)
  finally have u: "users (fst (join flt now sid (Some d) st)) =
      (users st)[i := join_update now sid d found]" .
  have "join_update now sid d found =
      found\<lparr>isOnline := True, socketId := Some sid, lastSeen := now,
        avatar := (if ud_avatar d = [] then avatar found else Some (ud_avatar d)),
        role := (if ud_role d = [] then role found else ud_role d)\<rparr>"
    by (simp add: join_update_def Let_def)
  with u i at
  show "\<exists>i < length (users st). users st ! i = found \<and>
               users (fst (join flt now sid (Some d) st)) =
                 (users st)[i := found\<lparr>isOnline := True, socketId := Some sid, lastSeen := now,
                    avatar := (if ud_avatar d = [] then avatar found else Some (ud_avatar d)),
                    role := (if ud_role d = [] then role found else ud_role d)\<rparr>]"
    by auto
  from u show "length (users (fst (join flt now sid (Some d) st))) = length (users st)"
    by simp
next
  assume n: "findOne_user_or (ud_username d) (ud_walletAddress d) (users st) = None"
  then have "insert_user (join_create (nextId st) now sid d) (users st) =
      Some (users st @ [join_create (nextId st) now sid d])"
    by (auto simp: insert_user_def findOne_user_or_def find_None_iff join_create_def)
  then show "users (fst (join flt now sid (Some d) st)) =
              users st @
                [\<lparr>u_id = nextId st, username = ud_username d, walletAddress = ud_walletAddress d,
                  avatar = (if ud_avatar d = [] then None else Some (ud_avatar d)),
                  role = (if ud_role d = [] then ''user'' else ud_role d),
                  isOnline = True, socketId = Some sid, lastSeen = now, joinedAt = now\<rparr>]"
    using assms n by (simp add: join_def Let_def join_create_def)
qed

theorem join_updates_or_creates_witness:
  "ud_username alice \<noteq> [] \<and> ud_walletAddress alice \<noteq> [] \<and> \<not> no_faults 0 \<and> \<not> no_faults 1 \<and>
   distinct (map u_id (users seeded)) \<and> distinct (map u_id (users alice_joined)) \<and>
   findOne_user_or (ud_username alice) (ud_walletAddress alice) (users seeded) = None \<and>
   users (fst (join no_faults 1 ''s1'' (Some alice) seeded)) =
     users seeded @
       [\<lparr>u_id = 6, username = ''alice'', walletAddress = ''0xAAA'', avatar = None,
         role = ''user'', isOnline = True, socketId = Some ''s1'', lastSeen = 1, joinedAt = 1\<rparr>] \<and>
   findOne_user_or ''alice'' ''0xBBB'' (users alice_joined) =
     Some \<lparr>u_id = 6, username = ''alice'', walletAddress = ''0xAAA'', avatar = None,
           role = ''user'', isOnline = True, socketId = Some ''s1'', lastSeen = 1, joinedAt = 1\<rparr> \<and>
   users (fst (join no_faults 5 ''s2''
       (Some \<lparr>ud_username = ''alice'', ud_walletAddress = ''0xBBB'', ud_avatar = ''pic.png'',
              ud_role = []\<rparr>) alice_joined)) =
     users seeded @
       [\<lparr>u_id = 6, username = ''alice'', walletAddress = ''0xAAA'', avatar = Some ''pic.png'',
         role = ''user'', isOnline = True, socketId = Some ''s2'', lastSeen = 5, joinedAt = 1\<rparr>]"
proof -
  have a: "ud_username alice \<noteq> []" "ud_walletAddress alice \<noteq> []"
    by (simp_all add: alice_def)
  have b: "ud_username \<lparr>ud_username = ''alice'', ud_walletAddress = ''0xBBB'',
      ud_avatar = ''pic.png'', ud_role = []\<rparr> \<noteq> []"
    "ud_walletAddress \<lparr>ud_username = ''alice'', ud_walletAddress = ''0xBBB'',
      ud_avatar = ''pic.png'', ud_role = []\<rparr> \<noteq> []"
    by simp_all
  have n: "\<not> no_faults 0" "\<not> no_faults 1"
    by (simp_all add: no_faults_def)
  have d: "distinct (map u_id (users seeded))"
    by (simp add: seeded_eq)
  have d': "distinct (map u_id (users alice_joined))"
    by (simp add: alice_joined_eq seeded_eq system_user_def)
  have f: "findOne_user_or (ud_username alice) (ud_walletAddress alice) (users seeded) = None"
    by (simp add: findOne_user_or_def alice_def seeded_eq system_user_def)
  have f': "findOne_user_or ''alice'' ''0xBBB'' (users alice_joined) =
     Some \<lparr>u_id = 6, username = ''alice'', walletAddress = ''0xAAA'', avatar = None,
           role = ''user'', isOnline = True, socketId = Some ''s1'', lastSeen = 1, joinedAt = 1\<rparr>"
    by (simp add: findOne_user_or_def alice_joined_eq seeded_eq system_user_def)
  from join_updates_or_creates [OF a n d, of 1 "''s1''"] f
  have 1: "users (fst (join no_faults 1 ''s1'' (Some alice) seeded)) =
     users seeded @
       [\<lparr>u_id = 6, username = ''alice'', walletAddress = ''0xAAA'', avatar = None,
         role = ''user'', isOnline = True, socketId = Some ''s1'', lastSeen = 1, joinedAt = 1\<rparr>]"
    by (simp add: alice_def seeded_eq)
  from join_updates_or_creates [OF b n d', of 5 "''s2''"] f'
  have 2: "users (fst (join no_faults 5 ''s2''
       (Some \<lparr>ud_username = ''alice'', ud_walletAddress = ''0xBBB'', ud_avatar = ''pic.png'',
              ud_role = []\<rparr>) alice_joined)) =
     users seeded @
       [\<lparr>u_id = 6, username = ''alice'', walletAddress = ''0xAAA'', avatar = Some ''pic.png'',
         role = ''user'', isOnline = True, socketId = Some ''s2'', lastSeen = 5, joinedAt = 1\<rparr>]"
    apply (clarsimp simp: alice_joined_eq seeded_eq)
    subgoal for i by (cases i) (auto simp: system_user_def)
    done
  from a n d d' f f' 1 2 show ?thesis by simp
qed

text \<open>
  C3, as stated, fails: after the channel general has been deleted through the admin
  surface, a send to the default channel persists a message labelled general although the
  store has no channel of that name.
\<close>

theorem message_for_deleted_channel:
  "findOne_channel ''general'' (channel_docs general_deleted) = None \<and>
   messages general_deleted = [] \<and>
   messages (fst (sendMessage no_faults 9 ''s1'' (Some \<lparr>md_text = ''hi'', md_channel = []\<rparr>)
     general_deleted)) =
     [\<lparr>msg_id = 7, msg_username = ''alice'', msg_text = ''hi'', msg_channel = ''general'',
       msg_avatar = None, msg_isBroadcast = False, msg_userId = 6, msg_timestamp = 9\<rparr>]"
  by (simp add: general_deleted_eq alice_joined_eq seeded_eq findOne_channel_def sendMessage_def
      no_faults_def findById_user_def system_user_def new_Message_def trim_def is_ws_def
      valid_message_def message_channel_enum_def channel_or_general_def Let_def)

text \<open>
  C3, amended. Every message that sendMessage or broadcastMessage persists, in any state
  and under any fault plan, has a channel label from the enum of the message schema
  (general, trading, nft, defi, announcements); whether the Channel store has a channel
  of that name plays no part.
\<close>

theorem created_messages_in_enum:
  "(\<exists>new. messages (fst (sendMessage flt now sid messageData st)) = messages st @ new \<and>
      (\<forall>m \<in> set new. msg_channel m \<in> set message_channel_enum)) \<and>
   (\<exists>new. messages (fst (broadcastMessage flt clock sid messageData st)) = messages st @ new \<and>
      (\<forall>m \<in> set new. msg_channel m \<in> set message_channel_enum))"
proof
  show "\<exists>new. messages (fst (sendMessage flt now sid messageData st)) = messages st @ new \<and>
      (\<forall>m \<in> set new. msg_channel m \<in> set message_channel_enum)"
    by (auto simp: sendMessage_def Let_def valid_message_def split: option.splits)
next
  have "\<exists>new. messages st' = messages st @ new \<and>
      (\<forall>m \<in> set new. msg_channel m \<in> set message_channel_enum)"
    if "broadcast_loop flt clock user body 0 channels st [] = (st', r)" for user body st' r
    using broadcast_loop_prefix [OF that] by (auto simp: valid_message_def)
  then show "\<exists>new. messages (fst (broadcastMessage flt clock sid messageData st)) = messages st @ new \<and>
      (\<forall>m \<in> set new. msg_channel m \<in> set message_channel_enum)"
    by (auto simp: broadcastMessage_def split: option.splits prod.splits)
qed

theorem created_messages_in_enum_witness:
  "messages alice_joined = [] \<and>
   map msg_channel (messages (fst (sendMessage no_faults 9 ''s1''
     (Some \<lparr>md_text = ''hi'', md_channel = ''nft''\<rparr>) alice_joined))) = [''nft''] \<and>
   ''nft'' \<in> set message_channel_enum \<and>
   ''lobby'' \<notin> set message_channel_enum \<and>
   messages (fst (sendMessage no_faults 9 ''s1''
     (Some \<lparr>md_text = ''hi'', md_channel = ''lobby''\<rparr>) alice_joined)) = []"
proof -
  have e: "''nft'' \<in> set message_channel_enum" "''lobby'' \<notin> set message_channel_enum"
    by (simp_all add: message_channel_enum_def)
  from created_messages_in_enum [of no_faults 9 "''s1''"
      "Some \<lparr>md_text = ''hi'', md_channel = ''nft''\<rparr>" alice_joined]
    created_messages_in_enum [of no_faults 9 "''s1''"
      "Some \<lparr>md_text = ''hi'', md_channel = ''lobby''\<rparr>" alice_joined] e
  show ?thesis
    unfolding alice_sends alice_sends_lobby by (simp add: alice_joined_eq seeded_eq)
qed

text \<open>
  C4. A sendMessage from a connection that the registry does not know, or whose user is
  absent from the store or offline, leaves the whole state as it was (no message is
  persisted, no channel document changes) and emits exactly one messageError, to the
  originating connection. When the lookup of the user does not throw, it is the signal
  "User not found. Please reconnect.".
\<close>

theorem sendMessage_unregistered:
  assumes "\<not> registered_online sid st"
  shows "fst (sendMessage flt now sid messageData st) = st \<and>
         messages (fst (sendMessage flt now sid messageData st)) = messages st \<and>
         channel_docs (fst (sendMessage flt now sid messageData st)) = channel_docs st \<and>
         (\<exists>e. snd (sendMessage flt now sid messageData st) =
                 [SocketEmit sid ''messageError'' (ErrorMsg e)]) \<and>
         (\<not> flt 0 \<longrightarrow> snd (sendMessage flt now sid messageData st) = [user_not_found sid])"
  using assms
  by (auto simp: sendMessage_def registered_online_def user_not_found_def send_failed_def
      split: option.splits)

theorem sendMessage_unregistered_witness:
  "\<not> registered_online ''s2'' alice_joined \<and>
   sendMessage no_faults 9 ''s2'' (Some \<lparr>md_text = ''hi'', md_channel = ''nft''\<rparr>) alice_joined =
     (alice_joined,
      [SocketEmit ''s2'' ''messageError'' (ErrorMsg ''User not found. Please reconnect.'')])"
proof -
  have h: "\<not> registered_online ''s2'' alice_joined"
    by (simp add: registered_online_def alice_joined_eq seeded_eq)
  have n: "\<not> no_faults 0"
    by (simp add: no_faults_def)
  from sendMessage_unregistered [OF h, of no_faults 9 "Some \<lparr>md_text = ''hi'', md_channel = ''nft''\<rparr>"] n
  show ?thesis using h
    by (simp add: user_not_found_def prod_eq_iff)
qed

text \<open>
  C5, as stated, fails: after the channel general has been deleted, a send to general
  succeeds and persists its record, and no counter of any channel increases; the store
  has no channel of that name to count for.
\<close>

theorem send_to_deleted_channel_counts_nothing:
  "succeeded (sendMessage no_faults 9 ''s1'' (Some \<lparr>md_text = ''hi'', md_channel = ''general''\<rparr>)
     general_deleted) \<and>
   map msg_channel (messages (fst (sendMessage no_faults 9 ''s1''
     (Some \<lparr>md_text = ''hi'', md_channel = ''general''\<rparr>) general_deleted))) = [''general''] \<and>
   map chan_name (channel_docs general_deleted) = [''trading'', ''nft'', ''defi'', ''announcements''] \<and>
   map messageCount (channel_docs general_deleted) = [0, 0, 0, 0] \<and>
   map messageCount (channel_docs (fst (sendMessage no_faults 9 ''s1''
     (Some \<lparr>md_text = ''hi'', md_channel = ''general''\<rparr>) general_deleted))) = [0, 0, 0, 0]"
  by (simp add: succeeded_def general_deleted_eq alice_joined_eq seeded_eq sendMessage_def
      no_faults_def findById_user_def system_user_def new_Message_def trim_def is_ws_def
      valid_message_def message_channel_enum_def channel_or_general_def message_payload_def
      Let_def)

text \<open>
  C5, amended. After a successful send to channel c: when the store has a channel document
  of name c, that document is the old one with its message counter increased by exactly
  1 and its last-message timestamp set to the timestamp of the message; when the store
  has none, no channel document changes. In both cases the lookup of every other name
  gives what it gave before, the collection has as many documents as before, and every
  document of another name is unchanged at its place.
\<close>

theorem sendMessage_counts_one_channel:
  assumes "succeeded (sendMessage flt now sid (Some md) st)"
  shows "(\<forall>ch. findOne_channel (channel_or_general (md_channel md)) (channel_docs st) = Some ch \<longrightarrow>
            findOne_channel (channel_or_general (md_channel md))
                (channel_docs (fst (sendMessage flt now sid (Some md) st))) =
              Some (ch\<lparr>lastMessageAt := Some now, messageCount := messageCount ch + 1\<rparr>)) \<and>
         (findOne_channel (channel_or_general (md_channel md)) (channel_docs st) = None \<longrightarrow>
            channel_docs (fst (sendMessage flt now sid (Some md) st)) = channel_docs st) \<and>
         (\<forall>c'. c' \<noteq> channel_or_general (md_channel md) \<longrightarrow>
            findOne_channel c' (channel_docs (fst (sendMessage flt now sid (Some md) st))) =
              findOne_channel c' (channel_docs st)) \<and>
         length (channel_docs (fst (sendMessage flt now sid (Some md) st))) =
           length (channel_docs st) \<and>
         (\<forall>i < length (channel_docs st).
            chan_name (channel_docs st ! i) \<noteq> channel_or_general (md_channel md) \<longrightarrow>
              channel_docs (fst (sendMessage flt now sid (Some md) st)) ! i = channel_docs st ! i)"
proof -
  have docs: "channel_docs (fst (sendMessage flt now sid (Some md) st)) =
      findOneAndUpdate_inc (channel_or_general (md_channel md)) now (channel_docs st)"
    using assms
    by (auto simp: sendMessage_def succeeded_def user_not_found_def send_failed_def Let_def
        new_Message_def split: option.splits if_splits)
  show ?thesis
    unfolding docs
    by (simp add: findOne_updated_same findOne_updated_other nth_findOneAndUpdate_inc_other
        findOneAndUpdate_inc_absent counted_def)
qed

theorem sendMessage_counts_one_channel_witness:
  "succeeded (sendMessage no_faults 9 ''s1'' (Some \<lparr>md_text = ''hi'', md_channel = ''nft''\<rparr>) alice_joined) \<and>
   map messageCount (channel_docs alice_joined) = [0, 0, 0, 0, 0] \<and>
   map messageCount (channel_docs (fst (sendMessage no_faults 9 ''s1''
      (Some \<lparr>md_text = ''hi'', md_channel = ''nft''\<rparr>) alice_joined))) = [0, 0, 1, 0, 0] \<and>
   map lastMessageAt (channel_docs (fst (sendMessage no_faults 9 ''s1''
      (Some \<lparr>md_text = ''hi'', md_channel = ''nft''\<rparr>) alice_joined))) =
     [None, None, Some 9, None, None]"
proof -
  have h: "succeeded (sendMessage no_faults 9 ''s1'' (Some \<lparr>md_text = ''hi'', md_channel = ''nft''\<rparr>) alice_joined)"
    unfolding alice_sends by (simp add: succeeded_def)
  from sendMessage_counts_one_channel [OF h] h show ?thesis
    unfolding alice_sends by (simp add: alice_joined_eq seeded_eq)
qed

text \<open>
  C6, as stated, fails: a successful broadcast of the text " X" creates five records whose
  body is "X"; the schema trims the text before it is stored.
\<close>

theorem broadcastMessage_trims_body:
  "succeeded (broadcastMessage no_faults (\<lambda>k. 9 + k) ''s1''
     (Some \<lparr>md_text = '' X'', md_channel = []\<rparr>) alice_joined) \<and>
   map msg_text (messages (fst (broadcastMessage no_faults (\<lambda>k. 9 + k) ''s1''
     (Some \<lparr>md_text = '' X'', md_channel = []\<rparr>) alice_joined))) =
     [''X'', ''X'', ''X'', ''X'', ''X'']"
  by (simp add: succeeded_def broadcastMessage_def alice_joined_eq seeded_eq no_faults_def
      findById_user_def system_user_def channels_def new_Message_def trim_def is_ws_def
      valid_message_def message_channel_enum_def message_payload_def Let_def)

text \<open>
  C6, amended. A successful broadcastMessage of the text X appends exactly one record per
  name of the fixed channel list, in the order of the list; each has as body X without
  the white space that String.prototype.trim strips at its ends, and the broadcast flag
  true; the record of round k has the clock reading of round k as timestamp; one
  newMessage per record goes to every connection; the document of the k-th configured
  name, when the store has one, gets its counter increased by exactly 1 and the clock
  reading of round k as last-message timestamp, and the lookup of any other name gives
  what it gave before.
\<close>

theorem broadcastMessage_one_per_channel:
  assumes "succeeded (broadcastMessage flt clock sid (Some md) st)"
  shows "\<exists>new. messages (fst (broadcastMessage flt clock sid (Some md) st)) = messages st @ new \<and>
           map msg_channel new = channels \<and>
           (\<forall>m \<in> set new. msg_text m = trim (md_text md) \<and> msg_isBroadcast m) \<and>
           map msg_timestamp new = map clock [0..<length channels] \<and>
           snd (broadcastMessage flt clock sid (Some md) st) =
             map (IoEmit ''newMessage'') (map message_payload new) \<and>
           (\<forall>k < length channels.
              findOne_channel (channels ! k)
                  (channel_docs (fst (broadcastMessage flt clock sid (Some md) st))) =
                map_option (counted (clock k)) (findOne_channel (channels ! k) (channel_docs st))) \<and>
           (\<forall>c. c \<notin> set channels \<longrightarrow>
              findOne_channel c (channel_docs (fst (broadcastMessage flt clock sid (Some md) st))) =
                findOne_channel c (channel_docs st))"
proof -
  from assms obtain userId user where
    reg: "map_of (activeConnections st) sid = Some userId" and f0: "\<not> flt 0" and
    usr: "findById_user userId (users st) = Some user" and on: "isOnline user"
    by (auto simp: broadcastMessage_def succeeded_def user_not_found_def broadcast_failed_def
        split: option.splits if_splits)
  obtain st' r where loop: "broadcast_loop flt clock user (md_text md) 0 channels st [] = (st', r)"
    by (cases "broadcast_loop flt clock user (md_text md) 0 channels st []")
  with assms reg f0 usr on obtain out where r: "r = Some out"
    by (cases r) (auto simp: broadcastMessage_def succeeded_def broadcast_failed_def)
  from loop r reg f0 usr on
  have res: "broadcastMessage flt clock sid (Some md) st = (st', map (IoEmit ''newMessage'') out)"
    by (simp add: broadcastMessage_def)
  from broadcast_loop_complete [OF loop [unfolded r]] obtain new where
    new: "messages st' = messages st @ new" "map msg_channel new = channels"
      "\<forall>m \<in> set new. msg_text m = trim (md_text md) \<and> msg_isBroadcast m"
      "map msg_timestamp new = map (\<lambda>j. clock (0 + j)) [0..<length channels]"
      "out = [] @ map message_payload new"
    by blast
  from broadcast_loop_docs [OF loop [unfolded r] distinct_channels]
  have docs: "\<forall>k < length channels. findOne_channel (channels ! k) (channel_docs st') =
      map_option (counted (clock k)) (findOne_channel (channels ! k) (channel_docs st))"
    "\<forall>c. c \<notin> set channels \<longrightarrow>
      findOne_channel c (channel_docs st') = findOne_channel c (channel_docs st)"
    by simp_all
  from new docs show ?thesis
    unfolding res by (intro exI [of _ new]) simp
qed

theorem broadcastMessage_one_per_channel_witness:
  "succeeded (broadcastMessage no_faults (\<lambda>k. 9 + k) ''s1''
     (Some \<lparr>md_text = ''gm '', md_channel = []\<rparr>) alice_joined) \<and>
   messages alice_joined = [] \<and>
   map msg_channel (messages (fst (broadcastMessage no_faults (\<lambda>k. 9 + k) ''s1''
     (Some \<lparr>md_text = ''gm '', md_channel = []\<rparr>) alice_joined))) = channels \<and>
   map msg_text (messages (fst (broadcastMessage no_faults (\<lambda>k. 9 + k) ''s1''
     (Some \<lparr>md_text = ''gm '', md_channel = []\<rparr>) alice_joined))) =
     [''gm'', ''gm'', ''gm'', ''gm'', ''gm''] \<and>
   map msg_isBroadcast (messages (fst (broadcastMessage no_faults (\<lambda>k. 9 + k) ''s1''
     (Some \<lparr>md_text = ''gm '', md_channel = []\<rparr>) alice_joined))) =
     [True, True, True, True, True] \<and>
   map messageCount (channel_docs alice_joined) = [0, 0, 0, 0, 0] \<and>
   map messageCount (channel_docs (fst (broadcastMessage no_faults (\<lambda>k. 9 + k) ''s1''
     (Some \<lparr>md_text = ''gm '', md_channel = []\<rparr>) alice_joined))) = [1, 1, 1, 1, 1] \<and>
   map lastMessageAt (channel_docs (fst (broadcastMessage no_faults (\<lambda>k. 9 + k) ''s1''
     (Some \<lparr>md_text = ''gm '', md_channel = []\<rparr>) alice_joined))) =
     [Some 9, Some 10, Some 11, Some 12, Some 13]"
proof -
  have h: "succeeded (broadcastMessage no_faults (\<lambda>k. 9 + k) ''s1''
      (Some \<lparr>md_text = ''gm '', md_channel = []\<rparr>) alice_joined)"
    unfolding alice_broadcasts by (simp add: succeeded_def)
  from broadcastMessage_one_per_channel [OF h] h show ?thesis
    unfolding alice_broadcasts
    by (simp add: alice_joined_eq seeded_eq channels_def counted_def)
qed

text \<open>
  C7. When the store has a channel c under the identifier and no store call throws,
  DELETE /api/channels/:id answers with the name of c and the number of its messages;
  afterwards the messages are those of before whose label differs from the name of c, in
  their order: none with the label of c is left, every other one is still there; and c is
  gone from the channels.
\<close>

theorem delete_channel_cascades:
  assumes "findById_channel cid (channel_docs st) = Some c"
    and "\<not> flt 0" and "\<not> flt 1" and "\<not> flt 2"
  shows "snd (delete_channel flt (Some cid) st) =
           ChannelDeleted (chan_name c)
             (length (filter (\<lambda>m. msg_channel m = chan_name c) (messages st))) \<and>
         messages (fst (delete_channel flt (Some cid) st)) =
           filter (\<lambda>m. msg_channel m \<noteq> chan_name c) (messages st) \<and>
         (\<forall>m \<in> set (messages (fst (delete_channel flt (Some cid) st))).
            msg_channel m \<noteq> chan_name c) \<and>
         (\<forall>m \<in> set (messages st). msg_channel m \<noteq> chan_name c \<longrightarrow>
            m \<in> set (messages (fst (delete_channel flt (Some cid) st)))) \<and>
         c \<notin> set (channel_docs (fst (delete_channel flt (Some cid) st))) \<and>
         findById_channel cid (channel_docs (fst (delete_channel flt (Some cid) st))) = None"
proof -
  from assms(1) have "chan_id c = cid"
    by (auto simp: findById_channel_def find_Some_iff)
  then show ?thesis
    using assms by (simp add: delete_channel_def Let_def findById_channel_def find_None_iff)
qed

theorem delete_channel_cascades_witness:
  "findById_channel 3 (channel_docs alice_sent_twice) =
     Some \<lparr>chan_id = 3, chan_name = ''nft'', description = ''Default nft channel'',
           isActive = True, messageCount = 1, lastMessageAt = Some 9, createdBy = 0\<rparr> \<and>
   \<not> no_faults 0 \<and> \<not> no_faults 1 \<and> \<not> no_faults 2 \<and>
   map msg_channel (messages alice_sent_twice) = [''nft'', ''general''] \<and>
   snd (delete_channel no_faults (Some 3) alice_sent_twice) = ChannelDeleted ''nft'' 1 \<and>
   map msg_channel (messages (fst (delete_channel no_faults (Some 3) alice_sent_twice))) =
     [''general''] \<and>
   findById_channel 3 (channel_docs (fst (delete_channel no_faults (Some 3) alice_sent_twice))) = None"
proof -
  have c: "findById_channel 3 (channel_docs alice_sent_twice) =
     Some \<lparr>chan_id = 3, chan_name = ''nft'', description = ''Default nft channel'',
           isActive = True, messageCount = 1, lastMessageAt = Some 9, createdBy = 0\<rparr>"
    by (simp add: findById_channel_def alice_sent_twice_eq alice_sent_eq alice_joined_eq seeded_eq)
  have n: "\<not> no_faults 0" "\<not> no_faults 1" "\<not> no_faults 2"
    by (simp_all add: no_faults_def)
  have m: "map msg_channel (messages alice_sent_twice) = [''nft'', ''general'']"
    by (simp add: alice_sent_twice_eq)
  from delete_channel_cascades [OF c n] c n m show ?thesis
    by (simp add: alice_sent_twice_eq)
qed

text \<open>
  C8, as stated, fails: a typing event on a connection without a registry entry emits
  nothing at all; the handler has no branch for it.
\<close>

theorem typing_unbound_no_signal:
  "typing ''s1'' (Some True) seeded = Some (seeded, [])"
  by (simp add: typing_def seeded_eq)

text \<open>
  C8, amended. A typing event on a connection without a registry entry changes no state
  and emits no signal, neither to the originating connection nor to any other.
\<close>

theorem typing_unbound_silent:
  assumes "map_of (activeConnections st) sid = None"
  shows "typing sid data st = Some (st, [])"
  using assms by (simp add: typing_def)

theorem typing_unbound_silent_witness:
  "map_of (activeConnections alice_joined) ''s2'' = None \<and>
   typing ''s2'' (Some False) alice_joined = Some (alice_joined, [])"
proof -
  have h: "map_of (activeConnections alice_joined) ''s2'' = None"
    by (simp add: alice_joined_eq seeded_eq)
  from typing_unbound_silent [OF h] h show ?thesis by simp
qed

text \<open>
  C9. A broadcastMessage from a registered online user, whose lookup succeeded and in which
  the save of the message for the i-th channel of the fixed list throws (the store call
  fails, or the message does not pass the validators), sends exactly one messageError to
  the originating connection and no newMessage at all; the records it created are for a
  prefix of the list of at most i channels, so none is for the i-th or a later channel.
\<close>

theorem broadcastMessage_aborts_on_failed_save:
  assumes "map_of (activeConnections st) sid = Some userId" and "\<not> flt 0"
    and "findById_user userId (users st) = Some user" and "isOnline user"
    and "i < length channels"
    and "flt (2 * i + 1) \<or>
      \<not> valid_message (new_Message (nextId st + i) (clock i) (username user) (md_text md) (channels ! i)
          (avatar user) (u_id user) True)"
  shows "snd (broadcastMessage flt clock sid (Some md) st) = [broadcast_failed sid] \<and>
         (\<exists>new. messages (fst (broadcastMessage flt clock sid (Some md) st)) = messages st @ new \<and>
            length new \<le> i \<and> map msg_channel new = take (length new) channels \<and>
            (\<forall>m \<in> set new. msg_channel m \<notin> set (drop i channels)))"
proof -
  obtain st' r where loop: "broadcast_loop flt clock user (md_text md) 0 channels st [] = (st', r)"
    by (cases "broadcast_loop flt clock user (md_text md) 0 channels st []")
  from broadcast_loop_fault [OF loop, of i "nextId st + i" "clock i"] assms(5,6)
  have r: "r = None" and len: "length (messages st') \<le> length (messages st) + i"
    by simp_all
  from loop r assms(1-4)
  have res: "broadcastMessage flt clock sid (Some md) st = (st', [broadcast_failed sid])"
    by (simp add: broadcastMessage_def)
  from broadcast_loop_prefix [OF loop] obtain new where
    new: "messages st' = messages st @ new" "map msg_channel new = take (length new) channels"
    by blast
  from len new(1) have le: "length new \<le> i"
    by simp
  have "set (take (length new) channels) \<inter> set (drop i channels) = {}"
    using distinct_channels le by (rule set_take_disj_set_drop_if_distinct)
  with new(2) have "\<forall>m \<in> set new. msg_channel m \<notin> set (drop i channels)"
    by (metis disjoint_iff image_eqI list.set_map)
  with new le show ?thesis
    unfolding res by (intro conjI exI [of _ new]) simp_all
qed

theorem broadcastMessage_aborts_on_failed_save_witness:
  "map_of (activeConnections alice_joined) ''s1'' = Some 6 \<and> \<not> (\<lambda>n. n = 5) (0::nat) \<and>
   findById_user 6 (users alice_joined) =
     Some \<lparr>u_id = 6, username = ''alice'', walletAddress = ''0xAAA'', avatar = None,
           role = ''user'', isOnline = True, socketId = Some ''s1'', lastSeen = 1, joinedAt = 1\<rparr> \<and>
   2 < length channels \<and> (\<lambda>n. n = 5) (2 * 2 + 1 :: nat) \<and>
   snd (broadcastMessage (\<lambda>n. n = 5) (\<lambda>k. 9 + k) ''s1'' (Some \<lparr>md_text = ''gm '', md_channel = []\<rparr>)
     alice_joined) =
     [SocketEmit ''s1'' ''messageError'' (ErrorMsg ''Server error processing broadcast message'')] \<and>
   map msg_channel (messages (fst (broadcastMessage (\<lambda>n. n = 5) (\<lambda>k. 9 + k) ''s1''
     (Some \<lparr>md_text = ''gm '', md_channel = []\<rparr>) alice_joined))) = [''general'', ''trading'']"
proof -
  have a: "map_of (activeConnections alice_joined) ''s1'' = Some 6"
    by (simp add: alice_joined_eq seeded_eq)
  have u: "findById_user 6 (users alice_joined) =
     Some \<lparr>u_id = 6, username = ''alice'', walletAddress = ''0xAAA'', avatar = None,
           role = ''user'', isOnline = True, socketId = Some ''s1'', lastSeen = 1, joinedAt = 1\<rparr>"
    by (simp add: alice_joined_eq seeded_eq findById_user_def system_user_def)
  have b: "\<not> (\<lambda>n. n = 5) (0::nat)" "(\<lambda>n. n = 5) (2 * 2 + 1 :: nat)"
    by simp_all
  have c: "2 < length channels"
    by (simp add: channels_def)
  from broadcastMessage_aborts_on_failed_save [OF a b(1) u _ c disjI1 [OF b(2)],
      of "\<lambda>k. 9 + k" "\<lparr>md_text = ''gm '', md_channel = []\<rparr>"] a u b c
  show ?thesis
    unfolding alice_broadcast_cut by simp
qed

text \<open>
  C10. The sendMessage handlers of the two server variants are the same function: in
  every state, for every fault plan, clock reading, connection and payload, they leave
  the same store and registry and emit the same signals.
\<close>

theorem sendMessage_variants_equal:
  "sendMessage_v1 flt now sid messageData st = sendMessage flt now sid messageData st"
  unfolding sendMessage_v1_def sendMessage_def by (rule refl)

theorem sendMessage_variants_equal_witness:
  "sendMessage_v1 no_faults 9 ''s1'' (Some \<lparr>md_text = ''hi'', md_channel = ''nft''\<rparr>) alice_joined =
     sendMessage no_faults 9 ''s1'' (Some \<lparr>md_text = ''hi'', md_channel = ''nft''\<rparr>) alice_joined \<and>
   snd (sendMessage no_faults 9 ''s1'' (Some \<lparr>md_text = ''hi'', md_channel = ''nft''\<rparr>) alice_joined) =
     [IoEmit ''newMessage'' (NewMessage 7 ''alice'' ''hi'' 9 None ''nft'' False)]"
  using sendMessage_variants_equal [of no_faults 9 "''s1''"
      "Some \<lparr>md_text = ''hi'', md_channel = ''nft''\<rparr>" alice_joined]
  by (simp add: sendMessage_def alice_joined_eq seeded_eq no_faults_def findById_user_def
      system_user_def new_Message_def trim_def is_ws_def valid_message_def message_channel_enum_def
      channel_or_general_def message_payload_def Let_def)

end
